theory Spec2Isabelle
  imports Complex_Main "HOL-Library.Word"
begin

unbundle bit_operations_syntax

section \<open>JavaScript values\<close>

text \<open>
  A JavaScript number is an IEEE 754 double: \<open>NaN\<close>, an infinity, or a finite value,
  which is held as the rational number it denotes.  The sign of zero is not kept: the
  modelled code only adds, subtracts, multiplies, compares and tests numbers for
  truthiness, and none of these tells \<open>-0\<close> from \<open>0\<close>.  The result of an arithmetic
  operation is the exact result rounded to the nearest double, ties to the even
  significand (\<open>round_double\<close>).
\<close>

datatype number = NaN | NegInf | Fin rat | PosInf

definition pow2 :: "int \<Rightarrow> rat" where
  "pow2 e = (if 0 \<le> e then 2 ^ nat e else 1 / 2 ^ nat (- e))"

text \<open>The number of binary digits of a natural number.\<close>

fun bitlen :: "nat \<Rightarrow> nat" where
  "bitlen n = (if n = 0 then 0 else Suc (bitlen (n div 2)))"

declare bitlen.simps [simp del]

text \<open>The exponent \<open>e\<close> with \<open>2^e \<le> a < 2^(e+1)\<close>, for a positive rational \<open>a\<close>.\<close>

definition floor_log2 :: "rat \<Rightarrow> int" where
  "floor_log2 a =
     (if 1 \<le> a then int (bitlen (nat \<lfloor>a\<rfloor>)) - 1
      else - int (bitlen (nat (\<lceil>1 / a\<rceil> - 1))))"

definition round_half_even :: "rat \<Rightarrow> int" where
  "round_half_even q =
     (let f = \<lfloor>q\<rfloor>; r = q - of_int f
      in if r < 1 / 2 then f else if 1 / 2 < r then f + 1 else if even f then f else f + 1)"

text \<open>
  Rounding to binary64: 53 significant bits, the least exponent of a normal number is
  \<open>-1022\<close> (below it the spacing stays \<open>2^-1074\<close>), and a rounded magnitude of \<open>2^1024\<close>
  or more is an infinity.  A decimal literal of the source denotes the rounding of its
  decimal value.
\<close>

definition round_double :: "rat \<Rightarrow> number" where
  "round_double x =
     (if x = 0 then Fin 0
      else
        (let e = max (floor_log2 \<bar>x\<bar>) (- 1022);
             ulp = pow2 (e - 52);
             r = of_int (round_half_even (\<bar>x\<bar> / ulp)) * ulp
         in if pow2 1024 \<le> r then (if 0 < x then PosInf else NegInf)
            else Fin (if 0 < x then r else - r)))"

text \<open>The operators \<open>+\<close>, unary \<open>-\<close>, binary \<open>-\<close> and \<open>*\<close> on numbers.\<close>

fun js_add :: "number \<Rightarrow> number \<Rightarrow> number" where
  "js_add (Fin x) (Fin y) = round_double (x + y)"
| "js_add NaN b = NaN"
| "js_add a NaN = NaN"
| "js_add PosInf NegInf = NaN"
| "js_add NegInf PosInf = NaN"
| "js_add PosInf b = PosInf"
| "js_add a PosInf = PosInf"
| "js_add NegInf b = NegInf"
| "js_add a NegInf = NegInf"

fun js_neg :: "number \<Rightarrow> number" where
  "js_neg NaN = NaN"
| "js_neg NegInf = PosInf"
| "js_neg PosInf = NegInf"
| "js_neg (Fin x) = Fin (- x)"

definition js_sub :: "number \<Rightarrow> number \<Rightarrow> number" where
  "js_sub a b = js_add a (js_neg b)"

fun js_mul :: "number \<Rightarrow> number \<Rightarrow> number" where
  "js_mul (Fin x) (Fin y) = round_double (x * y)"
| "js_mul NaN b = NaN"
| "js_mul a NaN = NaN"
| "js_mul (Fin x) b = (if x = 0 then NaN else if (0 < x) = (b = PosInf) then PosInf else NegInf)"
| "js_mul a (Fin y) = (if y = 0 then NaN else if (0 < y) = (a = PosInf) then PosInf else NegInf)"
| "js_mul a b = (if a = b then PosInf else NegInf)"

text \<open>The comparisons \<open><=\<close>, \<open><\<close>, \<open>>\<close> and \<open>>=\<close>: false whenever an operand is \<open>NaN\<close>.\<close>

fun js_le :: "number \<Rightarrow> number \<Rightarrow> bool" where
  "js_le NaN b = False"
| "js_le a NaN = False"
| "js_le NegInf b = True"
| "js_le a PosInf = True"
| "js_le (Fin x) (Fin y) = (x \<le> y)"
| "js_le a b = False"

definition js_lt :: "number \<Rightarrow> number \<Rightarrow> bool" where
  "js_lt a b = (js_le a b \<and> \<not> js_le b a)"

definition js_gt :: "number \<Rightarrow> number \<Rightarrow> bool" where
  "js_gt a b = js_lt b a"

definition js_ge :: "number \<Rightarrow> number \<Rightarrow> bool" where
  "js_ge a b = js_le b a"

text \<open>\<open>Math.min\<close> of two numbers: \<open>NaN\<close> when either is.\<close>

definition Math_min :: "number \<Rightarrow> number \<Rightarrow> number" where
  "Math_min a b = (if a = NaN \<or> b = NaN then NaN else if js_le a b then a else b)"

definition Number_isFinite :: "number \<Rightarrow> bool" where
  "Number_isFinite n = (case n of Fin x \<Rightarrow> True | _ \<Rightarrow> False)"

text \<open>Truthiness of a number: \<open>0\<close> and \<open>NaN\<close> are falsy.\<close>

definition js_truthy :: "number \<Rightarrow> bool" where
  "js_truthy n = (case n of NaN \<Rightarrow> False | Fin x \<Rightarrow> x \<noteq> 0 | _ \<Rightarrow> True)"

text \<open>
  A field that holds a number, \<open>null\<close>, or nothing yet (\<open>undefined\<close>), with the
  conversion \<open>ToNumber\<close> that arithmetic and comparisons apply to it.
\<close>

datatype js_value = Undefined | Null | Number number

definition toNumber :: "js_value \<Rightarrow> number" where
  "toNumber v = (case v of Undefined \<Rightarrow> NaN | Null \<Rightarrow> Fin 0 | Number n \<Rightarrow> n)"

definition truthy_value :: "js_value \<Rightarrow> bool" where
  "truthy_value v = (case v of Number n \<Rightarrow> js_truthy n | _ \<Rightarrow> False)"

text \<open>\<open>Number.isFinite\<close> of a field: it does not convert, so \<open>null\<close> is not finite.\<close>

definition isFinite_value :: "js_value \<Rightarrow> bool" where
  "isFinite_value v = (case v of Number n \<Rightarrow> Number_isFinite n | _ \<Rightarrow> False)"

text \<open>
  Sequence numbers, indices, HTTP status codes, retry counters and timer delays are
  integers.  Exceptions thrown by the source are values of \<open>js_error\<close>.
\<close>

datatype js_error =
  TypeError
  | RequestAlreadyOngoing
  | MethodNotImplemented

type_synonym bytes = "nat list"

section \<open>Data model\<close>

text \<open>
  Class \<open>LevelKey\<close> (second file of \<open>src/src/hls.ts\<close>).  The private field \<open>_uri\<close>
  only memoises the getter \<open>uri\<close>; the getter is modelled as a function of the
  URL resolver \<open>URLToolkit.buildAbsoluteURL\<close>, an external package taken as the
  parameter \<open>build\<close>.
\<close>

record LevelKey =
  key_method :: "string option"
  key :: "bytes option"
  iv :: "bytes option"
  reluri :: "string option"
  baseuri :: "string option"

definition new_LevelKey :: LevelKey where
  "new_LevelKey = \<lparr> key_method = None, key = None, iv = None, reluri = None, baseuri = None \<rparr>"

text \<open>JavaScript truthiness of a \<open>string | null\<close> value.\<close>

definition truthy_str :: "string option \<Rightarrow> bool" where
  "truthy_str s = (case s of None \<Rightarrow> False | Some t \<Rightarrow> t \<noteq> [])"

definition LevelKey_uri :: "(string option \<Rightarrow> string \<Rightarrow> string) \<Rightarrow> LevelKey \<Rightarrow> string option" where
  "LevelKey_uri build k =
     (case reluri k of
        None \<Rightarrow> None
      | Some r \<Rightarrow> if r \<noteq> [] then Some (build (baseuri k) r) else None)"

text \<open>
  \<open>LevelKey\<close> objects are shared and mutated: a fragment whose playlist key carries an
  explicit IV uses the playlist's key object itself as its decryption data, and so does
  every other fragment under that key.  The objects therefore live in a heap, and a
  fragment holds the addresses of its \<open>levelkey\<close> and \<open>_decryptdata\<close>.  \<open>new LevelKey()\<close>
  takes the next free address.
\<close>

record KeyHeap =
  heap_keys :: "nat \<Rightarrow> LevelKey"
  heap_next :: nat

definition alloc_LevelKey :: "LevelKey \<Rightarrow> KeyHeap \<Rightarrow> nat \<times> KeyHeap" where
  "alloc_LevelKey k hp =
     (heap_next hp, hp\<lparr>heap_keys := (heap_keys hp)(heap_next hp := k), heap_next := heap_next hp + 1\<rparr>)"

text \<open>The assignment \<open>object.key = data\<close> to the object at an address.\<close>

definition set_key :: "nat \<Rightarrow> bytes \<Rightarrow> KeyHeap \<Rightarrow> KeyHeap" where
  "set_key r data hp = hp\<lparr>heap_keys := (heap_keys hp)(r := (heap_keys hp r)\<lparr>key := Some data\<rparr>)\<rparr>"

text \<open>
  Class \<open>MediaFragment\<close> (\<open>src/unnamed/part_001\<close>), the fields the operations read.  The
  class initialises neither \<open>programDateTime\<close> nor \<open>deltaPTS\<close>, which are \<open>undefined\<close>
  until a parser assigns them.  \<open>start\<close> and \<open>duration\<close> are numbers; a field left
  \<open>undefined\<close> behaves as \<open>NaN\<close> in every operation modelled here.
\<close>

record MediaFragment =
  sn :: int
  start :: number
  duration :: number
  deltaPTS :: js_value
  programDateTime :: js_value
  ftype :: string
  level :: int
  urlId :: int
  levelkey :: "nat option"
  decryptdata_cache :: "nat option"
  backtracked :: bool
  dropped :: int
  es_audio :: bool
  es_video :: bool
  loader_attached :: bool

section \<open>Fragment finders (\<open>src/src/m3u8/fragment-finders.ts\<close>)\<close>

text \<open>
  Getter \<open>endProgramDateTime\<close>: \<open>null\<close> when the fragment has no finite
  program-date-time; a duration that is not finite counts as 0.
\<close>

definition endProgramDateTime :: "MediaFragment \<Rightarrow> js_value" where
  "endProgramDateTime f =
     (if \<not> isFinite_value (programDateTime f) then Null
      else
        (let duration' = (if \<not> Number_isFinite (duration f) then Fin 0 else duration f)
         in Number (js_add (toNumber (programDateTime f)) (js_mul duration' (Fin 1000)))))"

text \<open>\<open>Math.min(maxFragLookUpTolerance, candidate.duration + (candidate.deltaPTS ? candidate.deltaPTS : 0))\<close>\<close>

definition candidateLookupTolerance :: "MediaFragment \<Rightarrow> number \<Rightarrow> number" where
  "candidateLookupTolerance candidate maxFragLookUpTolerance =
     Math_min maxFragLookUpTolerance
       (js_add (duration candidate)
          (if truthy_value (deltaPTS candidate) then toNumber (deltaPTS candidate) else Fin 0))"

definition compareFragmentWithTolerance :: "MediaFragment \<Rightarrow> number \<Rightarrow> number \<Rightarrow> int" where
  "compareFragmentWithTolerance candidate bufferEnd maxFragLookUpTolerance =
     (let tol = candidateLookupTolerance candidate maxFragLookUpTolerance in
      if js_le (js_sub (js_add (start candidate) (duration candidate)) tol) bufferEnd then 1
      else if js_gt (js_sub (start candidate) tol) bufferEnd \<and> js_truthy (start candidate) then - 1
      else 0)"

text \<open>
  The bounds of a candidate's tolerance-adjusted interval, as
  \<open>compareFragmentWithTolerance\<close> computes them.
\<close>

abbreviation adjustedStart :: "MediaFragment \<Rightarrow> number \<Rightarrow> number" where
  "adjustedStart candidate maxFragLookUpTolerance \<equiv>
     js_sub (start candidate) (candidateLookupTolerance candidate maxFragLookUpTolerance)"

abbreviation adjustedEnd :: "MediaFragment \<Rightarrow> number \<Rightarrow> number" where
  "adjustedEnd candidate maxFragLookUpTolerance \<equiv>
     js_sub (js_add (start candidate) (duration candidate))
            (candidateLookupTolerance candidate maxFragLookUpTolerance)"

definition isPdtWithinToleranceTest :: "MediaFragment \<Rightarrow> number \<Rightarrow> number \<Rightarrow> bool" where
  "isPdtWithinToleranceTest candidate pdtBufferEnd maxFragLookUpTolerance =
     (let tol = js_mul (candidateLookupTolerance candidate maxFragLookUpTolerance) (Fin 1000) in
      js_gt (js_sub (toNumber (endProgramDateTime candidate)) tol) pdtBufferEnd)"

text \<open>The \<open>for\<close> loop of \<open>findFragmentByPDT\<close>: the first fragment passing the test.\<close>

fun pdt_scan :: "MediaFragment list \<Rightarrow> number \<Rightarrow> number \<Rightarrow> MediaFragment option" where
  "pdt_scan [] pdtVal tol = None"
| "pdt_scan (frag # rest) pdtVal tol =
     (if isPdtWithinToleranceTest frag pdtVal tol then Some frag else pdt_scan rest pdtVal tol)"

text \<open>
  \<open>findFragmentByPDT\<close>.  An argument \<open>pdtVal\<close> that is \<open>null\<close> or \<open>undefined\<close> is not
  finite, as \<open>NaN\<close>; \<open>maxFragLookUpTolerance || 0\<close> replaces a falsy tolerance by 0.
\<close>

definition findFragmentByPDT :: "MediaFragment list \<Rightarrow> number \<Rightarrow> number \<Rightarrow> MediaFragment option" where
  "findFragmentByPDT fragments pdtVal maxFragLookUpTolerance =
     (if fragments = [] \<or> \<not> Number_isFinite pdtVal then None
      else if js_lt pdtVal (toNumber (programDateTime (hd fragments))) then None
      else if js_ge pdtVal (toNumber (endProgramDateTime (last fragments))) then None
      else pdt_scan fragments pdtVal
             (if js_truthy maxFragLookUpTolerance then maxFragLookUpTolerance else Fin 0))"

text \<open>
  Modelled from the spec: \<open>BinarySearch.search\<close> of \<open>utils/binary-search\<close> is not among
  the source files.  The spec asks for the behaviour of a standard binary search over a
  monotonic three-way predicate: a positive comparison moves the lower bound past the
  probed element, a negative one moves the upper bound before it, zero returns the
  probed element, and an exhausted range returns \<open>null\<close>.
\<close>

function search_loop :: "('a \<Rightarrow> int) \<Rightarrow> 'a list \<Rightarrow> int \<Rightarrow> int \<Rightarrow> 'a option" where
  "search_loop cmp xs minIndex maxIndex =
     (if minIndex \<le> maxIndex then
        (let currentIndex = (minIndex + maxIndex) div 2;
             currentElement = xs ! nat currentIndex;
             comparisonResult = cmp currentElement in
         if comparisonResult > 0 then search_loop cmp xs (currentIndex + 1) maxIndex
         else if comparisonResult < 0 then search_loop cmp xs minIndex (currentIndex - 1)
         else Some currentElement)
      else None)"
  by pat_completeness auto
termination
  by (relation "measure (\<lambda>(cmp, xs, lo, hi). nat (hi - lo + 1))") auto

declare search_loop.simps [simp del]

definition BinarySearch_search :: "'a list \<Rightarrow> ('a \<Rightarrow> int) \<Rightarrow> 'a option" where
  "BinarySearch_search xs cmp = search_loop cmp xs 0 (int (length xs) - 1)"

text \<open>\<open>fragments[i]\<close> for an integer index: \<open>undefined\<close> outside the array.\<close>

definition js_index :: "'a list \<Rightarrow> int \<Rightarrow> 'a option" where
  "js_index xs i = (if 0 \<le> i \<and> i < int (length xs) then Some (xs ! nat i) else None)"

definition findFragmentByPTS ::
  "MediaFragment option \<Rightarrow> MediaFragment list \<Rightarrow> number \<Rightarrow> number \<Rightarrow> js_error + MediaFragment option" where
  "findFragmentByPTS fragPrevious fragments bufferEnd maxFragLookUpTolerance =
     (let full = BinarySearch_search fragments
                   (\<lambda>fragment. compareFragmentWithTolerance fragment bufferEnd maxFragLookUpTolerance) in
      case fragPrevious of
        None \<Rightarrow> Inr full
      | Some prev \<Rightarrow>
          (case fragments of
             [] \<Rightarrow> Inl TypeError
           | first # _ \<Rightarrow>
               (case js_index fragments (sn prev - sn first + 1) of
                  None \<Rightarrow> Inr full
                | Some fragNext \<Rightarrow>
                    if compareFragmentWithTolerance fragNext bufferEnd maxFragLookUpTolerance = 0
                    then Inr (Some fragNext)
                    else Inr full)))"


section \<open>Decryption data of a fragment (\<open>src/unnamed/part_001\<close>)\<close>

text \<open>
  \<open>(segmentNumber >> 8 * (15 - i)) & 0xff\<close>: \<open>>>\<close> converts its left operand to a signed
  32-bit integer and shifts with sign extension; the result is stored in a \<open>Uint8Array\<close>.
\<close>

definition iv_byte :: "int \<Rightarrow> nat \<Rightarrow> nat" where
  "iv_byte segmentNumber i =
     unat (signed_drop_bit (8 * (15 - i)) (word_of_int segmentNumber :: 32 word) AND 255)"

function iv_loop :: "int \<Rightarrow> nat \<Rightarrow> bytes \<Rightarrow> bytes" where
  "iv_loop segmentNumber i uint8View =
     (if i < 16 then iv_loop segmentNumber (i + 1) (uint8View[i := iv_byte segmentNumber i])
      else uint8View)"
  by pat_completeness auto
termination
  by (relation "measure (\<lambda>(segmentNumber, i, uint8View). 16 - i)") auto

definition createInitializationVector :: "int \<Rightarrow> bytes" where
  "createInitializationVector segmentNumber = iv_loop segmentNumber 12 (replicate 16 0)"

text \<open>
  \<open>_createDecryptDataFromLevelkey\<close>: the playlist's key object itself, unless it has a
  method and a URI and no IV; then a new object with the derived IV.
\<close>

definition createDecryptDataFromLevelkey ::
  "(string option \<Rightarrow> string \<Rightarrow> string) \<Rightarrow> nat option \<Rightarrow> int \<Rightarrow> KeyHeap \<Rightarrow> nat option \<times> KeyHeap" where
  "createDecryptDataFromLevelkey build lk segmentNumber hp =
     (case lk of
        None \<Rightarrow> (None, hp)
      | Some r \<Rightarrow>
          (let k = heap_keys hp r in
           if truthy_str (key_method k) \<and> truthy_str (LevelKey_uri build k) \<and> iv k = None
           then
             (case alloc_LevelKey
                     (new_LevelKey
                        \<lparr> key_method := key_method k,
                          iv := Some (createInitializationVector segmentNumber),
                          reluri := reluri k,
                          baseuri := baseuri k \<rparr>) hp of
                (r', hp') \<Rightarrow> (Some r', hp'))
           else (Some r, hp)))"

text \<open>
  Getter \<open>decryptdata\<close>: the address of the decryption data, the fragment with
  \<open>_decryptdata\<close> filled, and the heap.
\<close>

definition decryptdata ::
  "(string option \<Rightarrow> string \<Rightarrow> string) \<Rightarrow> MediaFragment \<Rightarrow> KeyHeap
     \<Rightarrow> nat option \<times> MediaFragment \<times> KeyHeap" where
  "decryptdata build f hp =
     (case decryptdata_cache f of
        Some r \<Rightarrow> (Some r, f, hp)
      | None \<Rightarrow>
          (case createDecryptDataFromLevelkey build (levelkey f) (sn f) hp of
             (d, hp') \<Rightarrow> (d, f\<lparr>decryptdata_cache := d\<rparr>, hp')))"

text \<open>
  Getter \<open>encrypted\<close>; it reads \<open>decryptdata\<close>, so it returns the fragment and the heap
  as that getter leaves them.
\<close>

definition encrypted ::
  "(string option \<Rightarrow> string \<Rightarrow> string) \<Rightarrow> MediaFragment \<Rightarrow> KeyHeap
     \<Rightarrow> bool \<times> MediaFragment \<times> KeyHeap" where
  "encrypted build f hp =
     (case decryptdata build f hp of
        (None, f', hp') \<Rightarrow> (False, f', hp')
      | (Some r, f', hp') \<Rightarrow>
          (LevelKey_uri build (heap_keys hp' r) \<noteq> None \<and> key (heap_keys hp' r) = None, f', hp'))"

definition getKey :: "MediaFragment \<Rightarrow> string \<times> int \<times> int \<times> int" where
  "getKey f = (ftype f, level f, urlId f, sn f)"


section \<open>Transport engine (\<open>src/src/network/network-engine.ts\<close>)\<close>

datatype NetworkEngineContextType =
  MANIFEST | LEVEL | AUDIO_TRACK | SUBTITLE_TRACK | MEDIA_FRAGMENT | KEY

text \<open>
  The request context.  \<open>ctx_frag\<close> is the key of the fragment the context refers to; the
  fragment object itself is passed to the handlers that mutate it.
\<close>

record NetworkEngineContext =
  ctx_type :: NetworkEngineContextType
  ctx_url :: "string option"
  ctx_responseType :: "string option"
  ctx_level :: "int option"
  ctx_id :: "int option"
  ctx_isSidxRequest :: bool
  ctx_frag :: "(string \<times> int \<times> int \<times> int) option"

text \<open>
  \<open>NetworkEngineLoadOptions\<close>.  The playlist handler leaves \<open>retryDelay\<close> and
  \<open>maxRetryDelay\<close> \<open>undefined\<close> for a level context, hence the options.
\<close>

record NetworkEngineLoadOptions =
  opt_timeout :: int
  opt_retryDelay :: "int option"
  opt_maxRetryDelay :: "int option"
  opt_maxRetry :: int

datatype timer = NoTimer | Armed "int option"

text \<open>
  One \<open>NetworkEngine\<close> object.  \<open>xhr\<close> is the \<open>readyState\<close> of the current
  \<open>XMLHttpRequest\<close>, \<open>None\<close> when \<open>_xhr\<close> is \<open>null\<close>.  The \<open>xhrSetup\<close> hook is not
  configured and \<open>xhr.open\<close> does not throw.  Time stamps of \<open>_stats\<close> are left out.
\<close>

record NetworkEngine =
  xhr :: "nat option"
  requestTimeout :: timer
  retryTimeout :: timer
  cur_retryDelay :: "int option"
  eng_config :: "NetworkEngineLoadOptions option"
  eng_context :: "NetworkEngineContext option"
  stats_retry :: int
  stats_aborted :: bool

definition new_NetworkEngine :: NetworkEngine where
  "new_NetworkEngine =
     \<lparr> xhr = None, requestTimeout = NoTimer, retryTimeout = NoTimer, cur_retryDelay = None,
       eng_config = None, eng_context = None, stats_retry = 0, stats_aborted = False \<rparr>"

text \<open>What an engine does to the outside: requests sent, timers armed, callbacks invoked.\<close>

datatype net_effect =
  XhrSend "string option"
  | RetryScheduled "int option"
  | OnSuccess
  | OnError int
  | OnTimeout

text \<open>
  \<open>abort\<close>: an unfinished request is flagged aborted and cancelled (\<open>xhr.abort()\<close> leaves
  the request object in \<open>readyState\<close> 0); both timers are cleared.
\<close>

definition abort :: "NetworkEngine \<Rightarrow> NetworkEngine" where
  "abort e =
     (let e1 = (case xhr e of
                  Some rs \<Rightarrow> if rs \<noteq> 4 then e\<lparr>xhr := Some 0, stats_aborted := True\<rparr> else e
                | None \<Rightarrow> e)
      in e1\<lparr>requestTimeout := NoTimer, retryTimeout := NoTimer\<rparr>)"

definition destroy :: "NetworkEngine \<Rightarrow> NetworkEngine" where
  "destroy e = (abort e)\<lparr>xhr := None\<rparr>"

definition execRequest :: "NetworkEngine \<Rightarrow> (js_error + unit) \<times> NetworkEngine \<times> net_effect list" where
  "execRequest e =
     (if xhr e \<noteq> None then (Inl RequestAlreadyOngoing, e, [])
      else
        (Inr (),
         e\<lparr>xhr := Some 1,
           requestTimeout := Armed (case eng_config e of None \<Rightarrow> None | Some c \<Rightarrow> Some (opt_timeout c))\<rparr>,
         [XhrSend (case eng_context e of None \<Rightarrow> None | Some c \<Rightarrow> ctx_url c)]))"

definition load ::
  "NetworkEngineContext \<Rightarrow> NetworkEngineLoadOptions \<Rightarrow> NetworkEngine
     \<Rightarrow> (js_error + unit) \<times> NetworkEngine \<times> net_effect list" where
  "load ctx cfg e =
     execRequest (e\<lparr>eng_context := Some ctx, eng_config := Some cfg, stats_retry := 0,
                    stats_aborted := False, cur_retryDelay := opt_retryDelay cfg\<rparr>)"

text \<open>\<open>Math.min(2 * this._retryDelay, config.maxRetryDelay)\<close>; \<open>NaN\<close> when either is \<open>undefined\<close>.\<close>

definition backoff :: "int option \<Rightarrow> int option \<Rightarrow> int option" where
  "backoff d m =
     (case d of
        None \<Rightarrow> None
      | Some dv \<Rightarrow> (case m of None \<Rightarrow> None | Some mv \<Rightarrow> Some (min (2 * dv) mv)))"

text \<open>
  \<open>_handleReadyStateChange\<close> for an event of the current request, whose \<open>readyState\<close> and
  \<open>status\<close> are the arguments.
\<close>

definition handleReadyStateChange :: "nat \<Rightarrow> int \<Rightarrow> NetworkEngine \<Rightarrow> NetworkEngine \<times> net_effect list" where
  "handleReadyStateChange readyState status e0 =
     (let e = e0\<lparr>xhr := Some readyState\<rparr> in
      if stats_aborted e then (e, [])
      else if readyState \<ge> 2 then
        (let e1 = e\<lparr>requestTimeout := NoTimer\<rparr> in
         if readyState = 4 then
           (if status \<ge> 200 \<and> status < 300 then (e1, [OnSuccess])
            else if stats_retry e1 \<ge> (case eng_config e1 of None \<Rightarrow> 0 | Some c \<Rightarrow> opt_maxRetry c)
                    \<or> (status \<ge> 400 \<and> status < 499)
            then (e1, [OnError status])
            else
              (let d = cur_retryDelay e1;
                   e2 = destroy e1
               in (e2\<lparr>retryTimeout := Armed d,
                      cur_retryDelay := backoff d (case eng_config e1 of None \<Rightarrow> None | Some c \<Rightarrow> opt_maxRetryDelay c),
                      stats_retry := stats_retry e1 + 1\<rparr>,
                   [RetryScheduled d])))
         else (e1\<lparr>requestTimeout := Armed (case eng_config e1 of None \<Rightarrow> None | Some c \<Rightarrow> Some (opt_timeout c))\<rparr>, []))
      else (e, []))"

definition handleTimeout :: "NetworkEngine \<Rightarrow> NetworkEngine \<times> net_effect list" where
  "handleTimeout e = (e, [OnTimeout])"

text \<open>The retry timer fires: \<open>_execRequest\<close> runs again.\<close>

definition fireRetryTimer :: "NetworkEngine \<Rightarrow> (js_error + unit) \<times> NetworkEngine \<times> net_effect list" where
  "fireRetryTimer e = execRequest (e\<lparr>retryTimeout := NoTimer\<rparr>)"

text \<open>
  A run of one load against a server: each request that is sent completes
  (\<open>readyState\<close> 4) with the next status of the list, and a scheduled retry timer fires
  before the next response.  The run ends when no retry is pending.
\<close>

fun run_responses :: "NetworkEngine \<Rightarrow> int list \<Rightarrow> NetworkEngine \<times> net_effect list" where
  "run_responses e [] = (e, [])"
| "run_responses e (status # rest) =
     (case handleReadyStateChange 4 status e of
        (e1, fx1) \<Rightarrow>
          (case retryTimeout e1 of
             NoTimer \<Rightarrow> (e1, fx1)
           | Armed d \<Rightarrow>
               (case fireRetryTimer e1 of
                  (Inl err, e2, fx2) \<Rightarrow> (e2, fx1 @ fx2)
                | (Inr u, e2, fx2) \<Rightarrow>
                    (case run_responses e2 rest of (e3, fx3) \<Rightarrow> (e3, fx1 @ fx2 @ fx3)))))"

text \<open>The delays of the retries scheduled in a trace, in order.\<close>

fun retry_delays :: "net_effect list \<Rightarrow> int option list" where
  "retry_delays [] = []"
| "retry_delays (RetryScheduled d # fx) = d # retry_delays fx"
| "retry_delays (x # fx) = retry_delays fx"

text \<open>
  The engine after \<open>load\<close> or a fired retry timer: request sent, \<open>r\<close> retries so far,
  next retry delay \<open>dly\<close>.
\<close>

definition requesting :: "NetworkEngineLoadOptions \<Rightarrow> NetworkEngineContext \<Rightarrow> int \<Rightarrow> int option \<Rightarrow> NetworkEngine" where
  "requesting cfg ctx r dly =
     \<lparr> xhr = Some 1, requestTimeout = Armed (Some (opt_timeout cfg)), retryTimeout = NoTimer,
       cur_retryDelay = dly, eng_config = Some cfg, eng_context = Some ctx,
       stats_retry = r, stats_aborted = False \<rparr>"

text \<open>
  A request is in flight: its request object is sent and neither finished nor cancelled
  (\<open>readyState\<close> 1, 2 or 3), or the engine is waiting for its retry timer.
\<close>

definition in_flight :: "NetworkEngine \<Rightarrow> bool" where
  "in_flight e =
     ((case xhr e of None \<Rightarrow> False | Some rs \<Rightarrow> rs \<noteq> 0 \<and> rs \<noteq> 4)
      \<or> retryTimeout e \<noteq> NoTimer)"


section \<open>Signals on the event bus\<close>

datatype ErrorDetail =
  MANIFEST_LOAD_ERROR | MANIFEST_LOAD_TIMEOUT
  | LEVEL_LOAD_ERROR | LEVEL_LOAD_TIMEOUT
  | AUDIO_TRACK_LOAD_ERROR | AUDIO_TRACK_LOAD_TIMEOUT

text \<open>
  What \<open>hls.trigger\<close> is called with.  Listeners are outside the modelled classes and do
  not call back into them while an event is delivered.
\<close>

datatype hls_event =
  EV_ERROR "ErrorDetail option" bool "string option"
  | EV_KEY_LOADED "string \<times> int \<times> int \<times> int"
  | EV_LEVEL_PTS_UPDATED int number string number number
  | EV_BUFFER_APPENDING string bytes

text \<open>What a handler does, in order: engine calls, engine effects, signals.\<close>

datatype action =
  LoaderAbort
  | Net net_effect
  | Trigger hls_event

record HlsConfig =
  manifestLoadingTimeOut :: int
  manifestLoadingMaxRetry :: int
  manifestLoadingRetryDelay :: int
  manifestLoadingMaxRetryTimeout :: int
  levelLoadingTimeOut :: int
  levelLoadingMaxRetry :: int
  levelLoadingRetryDelay :: int
  levelLoadingMaxRetryTimeout :: int
  fragLoadingTimeOut :: int
  fragLoadingRetryDelay :: int
  fragLoadingMaxRetryTimeout :: int

section \<open>Playlist loading handler (\<open>src/unnamed/part_003\<close>)\<close>

text \<open>
  \<open>loaders\<close> maps a context type to its engine.  An engine that the map no longer refers
  to still exists (its request object may deliver late events); such engines are kept in
  \<open>pl_retired\<close>, in the state in which the handler left them.
\<close>

record PlaylistLoadingHandler =
  pl_loaders :: "NetworkEngineContextType \<Rightarrow> NetworkEngine option"
  pl_retired :: "NetworkEngine list"

definition new_PlaylistLoadingHandler :: PlaylistLoadingHandler where
  "new_PlaylistLoadingHandler = \<lparr> pl_loaders = (\<lambda>t. None), pl_retired = [] \<rparr>"

text \<open>The \<open>switch\<close> of \<open>load\<close> that picks the retry and timeout parameters.\<close>

definition loaderConfig :: "HlsConfig \<Rightarrow> NetworkEngineContextType \<Rightarrow> NetworkEngineLoadOptions" where
  "loaderConfig cfg t =
     (case t of
        MANIFEST \<Rightarrow>
          \<lparr> opt_timeout = manifestLoadingTimeOut cfg,
            opt_retryDelay = Some (manifestLoadingRetryDelay cfg),
            opt_maxRetryDelay = Some (manifestLoadingMaxRetryTimeout cfg),
            opt_maxRetry = manifestLoadingMaxRetry cfg \<rparr>
      | LEVEL \<Rightarrow>
          \<lparr> opt_timeout = levelLoadingTimeOut cfg,
            opt_retryDelay = None,
            opt_maxRetryDelay = None,
            opt_maxRetry = 0 \<rparr>
      | _ \<Rightarrow>
          \<lparr> opt_timeout = levelLoadingTimeOut cfg,
            opt_retryDelay = Some (levelLoadingRetryDelay cfg),
            opt_maxRetryDelay = Some (levelLoadingMaxRetryTimeout cfg),
            opt_maxRetry = levelLoadingMaxRetry cfg \<rparr>)"

definition PlaylistLoadingHandler_load ::
  "HlsConfig \<Rightarrow> string \<Rightarrow> NetworkEngineContext \<Rightarrow> PlaylistLoadingHandler
     \<Rightarrow> (js_error + bool) \<times> PlaylistLoadingHandler \<times> action list" where
  "PlaylistLoadingHandler_load cfg url ctx h =
     (let t = ctx_type ctx;
          same = (case pl_loaders h t of
                    None \<Rightarrow> False
                  | Some l \<Rightarrow> (case eng_context l of None \<Rightarrow> False | Some lc \<Rightarrow> ctx_url lc = Some url))
      in
      if same then (Inr False, h, [])
      else
        (let (h1, acts1) =
               (case pl_loaders h t of
                  None \<Rightarrow> (h, [])
                | Some l \<Rightarrow> (h\<lparr>pl_retired := pl_retired h @ [abort l]\<rparr>, [LoaderAbort]));
             ctx1 = ctx\<lparr>ctx_url := Some url,
                        ctx_responseType := Some (case ctx_responseType ctx of None \<Rightarrow> [] | Some r \<Rightarrow> r)\<rparr>
         in
         case load ctx1 (loaderConfig cfg t) new_NetworkEngine of
           (Inl err, l1, fx) \<Rightarrow>
             (Inl err, h1\<lparr>pl_loaders := (pl_loaders h1)(t := Some l1)\<rparr>, acts1 @ map Net fx)
         | (Inr u, l1, fx) \<Rightarrow>
             (Inr True, h1\<lparr>pl_loaders := (pl_loaders h1)(t := Some l1)\<rparr>, acts1 @ map Net fx)))"

definition networkErrorDetails :: "NetworkEngineContextType \<Rightarrow> bool \<Rightarrow> ErrorDetail option \<times> bool" where
  "networkErrorDetails t timeout =
     (case t of
        MANIFEST \<Rightarrow> (Some (if timeout then MANIFEST_LOAD_TIMEOUT else MANIFEST_LOAD_ERROR), True)
      | LEVEL \<Rightarrow> (Some (if timeout then LEVEL_LOAD_TIMEOUT else LEVEL_LOAD_ERROR), False)
      | AUDIO_TRACK \<Rightarrow> (Some (if timeout then AUDIO_TRACK_LOAD_TIMEOUT else AUDIO_TRACK_LOAD_ERROR), False)
      | _ \<Rightarrow> (None, False))"

definition handleNetworkError ::
  "NetworkEngineContext \<Rightarrow> bool \<Rightarrow> PlaylistLoadingHandler
     \<Rightarrow> (js_error + unit) \<times> PlaylistLoadingHandler \<times> action list" where
  "handleNetworkError ctx timeout h =
     (let t = ctx_type ctx;
          (details, fatal) = networkErrorDetails t timeout
      in
      case pl_loaders h t of
        None \<Rightarrow> (Inl TypeError, h, [])
      | Some l \<Rightarrow>
          (let l1 = abort l;
               h1 = h\<lparr>pl_loaders := (pl_loaders h)(t := None), pl_retired := pl_retired h @ [l1]\<rparr>
           in
           case eng_context l1 of
             None \<Rightarrow> (Inl TypeError, h1, [LoaderAbort])
           | Some lc \<Rightarrow> (Inr (), h1, [LoaderAbort, Trigger (EV_ERROR details fatal (ctx_url lc))])))"

text \<open>Callbacks \<open>loaderror\<close> and \<open>loadtimeout\<close>.\<close>

definition loaderror :: "NetworkEngineContext \<Rightarrow> PlaylistLoadingHandler
     \<Rightarrow> (js_error + unit) \<times> PlaylistLoadingHandler \<times> action list" where
  "loaderror ctx h = handleNetworkError ctx False h"

definition loadtimeout :: "NetworkEngineContext \<Rightarrow> PlaylistLoadingHandler
     \<Rightarrow> (js_error + unit) \<times> PlaylistLoadingHandler \<times> action list" where
  "loadtimeout ctx h = handleNetworkError ctx True h"




section \<open>Key loading handler (\<open>src/unnamed/part_004\<close>)\<close>

text \<open>
  \<open>_loaders\<close> maps a fragment type (the lane) to its engine; \<open>kl_retired\<close> keeps the
  engines the map no longer refers to.  The handlers take and return the fragment of the
  event and the heap of key objects.
\<close>

record KeyLoadingHandler =
  kl_loaders :: "string \<Rightarrow> NetworkEngine option"
  kl_retired :: "NetworkEngine list"
  keyData :: "bytes option"
  keyUrl :: "string option"

definition new_KeyLoadingHandler :: KeyLoadingHandler where
  "new_KeyLoadingHandler =
     \<lparr> kl_loaders = (\<lambda>t. None), kl_retired = [], keyData = None, keyUrl = None \<rparr>"

definition onKeyLoading ::
  "(string option \<Rightarrow> string \<Rightarrow> string) \<Rightarrow> HlsConfig \<Rightarrow> MediaFragment \<Rightarrow> KeyLoadingHandler
     \<Rightarrow> KeyHeap
     \<Rightarrow> (js_error + unit) \<times> KeyLoadingHandler \<times> MediaFragment \<times> KeyHeap \<times> action list" where
  "onKeyLoading build cfg frag kl hp =
     (let t = ftype frag in
      case decryptdata build frag hp of
        (None, frag1, hp1) \<Rightarrow> (Inl TypeError, kl, frag1, hp1, [])
      | (Some r, frag1, hp1) \<Rightarrow>
          (let uri = LevelKey_uri build (heap_keys hp1 r) in
           if uri \<noteq> keyUrl kl \<or> keyData kl = None then
             (let (kl1, acts1) =
                    (case kl_loaders kl t of
                       None \<Rightarrow> (kl, [])
                     | Some l \<Rightarrow> (kl\<lparr>kl_retired := kl_retired kl @ [abort l]\<rparr>, [LoaderAbort]));
                  loaderContext =
                    \<lparr> ctx_type = KEY, ctx_url = uri, ctx_responseType = Some ''arraybuffer'',
                      ctx_level = None, ctx_id = None, ctx_isSidxRequest = False,
                      ctx_frag = Some (getKey frag) \<rparr>;
                  loaderCfg =
                    \<lparr> opt_timeout = fragLoadingTimeOut cfg,
                      opt_retryDelay = Some (fragLoadingRetryDelay cfg),
                      opt_maxRetryDelay = Some (fragLoadingMaxRetryTimeout cfg),
                      opt_maxRetry = 0 \<rparr>
              in
              case load loaderContext loaderCfg new_NetworkEngine of
                (res, l1, fx) \<Rightarrow>
                  (res,
                   kl1\<lparr>kl_loaders := (kl_loaders kl1)(t := Some l1), keyUrl := uri, keyData := None\<rparr>,
                   frag1\<lparr>loader_attached := True\<rparr>,
                   hp1,
                   acts1 @ map Net fx))
           else
             (case keyData kl of
                Some kd \<Rightarrow>
                  (Inr (), kl, frag1, set_key r kd hp1, [Trigger (EV_KEY_LOADED (getKey frag))])
              | None \<Rightarrow> (Inr (), kl, frag1, hp1, []))))"

text \<open>\<open>_handleSuccess\<close>; \<open>frag\<close> is \<open>context.frag\<close>, \<open>data\<close> the bytes of \<open>response.data\<close>.\<close>

definition KeyLoadingHandler_handleSuccess ::
  "(string option \<Rightarrow> string \<Rightarrow> string) \<Rightarrow> bytes \<Rightarrow> MediaFragment \<Rightarrow> KeyLoadingHandler
     \<Rightarrow> KeyHeap
     \<Rightarrow> (js_error + unit) \<times> KeyLoadingHandler \<times> MediaFragment \<times> KeyHeap \<times> action list" where
  "KeyLoadingHandler_handleSuccess build data frag kl hp =
     (case decryptdata build frag hp of
        (None, frag1, hp1) \<Rightarrow> (Inl TypeError, kl, frag1, hp1, [])
      | (Some r, frag1, hp1) \<Rightarrow>
          (Inr (),
           kl\<lparr>keyData := Some data,
              kl_loaders := (kl_loaders kl)(ftype frag := None),
              kl_retired := kl_retired kl @ (case kl_loaders kl (ftype frag) of None \<Rightarrow> [] | Some l \<Rightarrow> [l])\<rparr>,
           frag1\<lparr>loader_attached := False\<rparr>,
           set_key r data hp1,
           [Trigger (EV_KEY_LOADED (getKey frag))]))"

text \<open>The requests put on the network by a list of actions.\<close>

fun fetches :: "action list \<Rightarrow> string option list" where
  "fetches [] = []"
| "fetches (Net (XhrSend u) # as) = u # fetches as"
| "fetches (a # as) = fetches as"



section \<open>Fragment delivery state machine (\<open>src/unnamed/part_007\<close>)\<close>

datatype MediaFragmentReceiverState =
  STOPPED | IDLE | KEY_LOADING | FRAG_LOADING | FRAG_LOADING_WAITING_RETRY | WAITING_LEVEL
  | PARSING | PARSED | BUFFER_FLUSHING | ENDED | ERROR

record LevelDetails =
  startSN :: int

record QualityLevel =
  details :: "LevelDetails option"







section \<open>Example values\<close>

text \<open>
  A heap with three playlist keys: at address 0 a key without IV, at address 1 a key
  without IV and with another URI, at address 2 a key with an explicit IV.
\<close>

definition key_example :: LevelKey where
  "key_example =
     \<lparr> key_method = Some ''AES-128'', key = None, iv = None,
       reluri = Some ''key.bin'', baseuri = Some ''http://host/'' \<rparr>"

definition key_other :: LevelKey where
  "key_other =
     \<lparr> key_method = Some ''AES-128'', key = None, iv = None,
       reluri = Some ''other.bin'', baseuri = Some ''http://host/'' \<rparr>"

definition key_with_iv :: LevelKey where
  "key_with_iv =
     \<lparr> key_method = Some ''AES-128'', key = None,
       iv = Some [0, 0, 0, 0, 0, 0, 0, 0, 0, 0, 0, 0, 0, 0, 0, 7],
       reluri = Some ''fixed.bin'', baseuri = Some ''http://host/'' \<rparr>"

definition heap_example :: KeyHeap where
  "heap_example =
     \<lparr> heap_keys = (\<lambda>r. new_LevelKey)(0 := key_example, 1 := key_other, 2 := key_with_iv),
       heap_next = 3 \<rparr>"

definition frag_example :: MediaFragment where
  "frag_example =
     \<lparr> sn = 16909060, start = Fin 0, duration = Fin 10, deltaPTS = Undefined,
       programDateTime = Number (Fin 0),
       ftype = ''main'', level = 0, urlId = 0, levelkey = Some 0,
       decryptdata_cache = None, backtracked = False, dropped = 0,
       es_audio = False, es_video = False, loader_attached = False \<rparr>"

definition build_example :: "string option \<Rightarrow> string \<Rightarrow> string" where
  "build_example b r = (case b of None \<Rightarrow> r | Some p \<Rightarrow> p @ r)"

text \<open>
  A fragment of the main lane with the given sequence number, whose start and duration
  are written as decimal literals; its program-date-time is the start in milliseconds.
\<close>

definition plain_frag :: "int \<Rightarrow> rat \<Rightarrow> rat \<Rightarrow> MediaFragment" where
  "plain_frag n s d =
     \<lparr> sn = n, start = round_double s, duration = round_double d, deltaPTS = Undefined,
       programDateTime = Number (round_double (s * 1000)),
       ftype = ''main'', level = 0, urlId = 0, levelkey = None,
       decryptdata_cache = None, backtracked = False, dropped = 0,
       es_audio = False, es_video = False, loader_attached = False \<rparr>"

text \<open>Two contiguous fragments of ten seconds.\<close>

definition frag_a :: MediaFragment where
  "frag_a = plain_frag 0 0 10"

definition frag_b :: MediaFragment where
  "frag_b = plain_frag 1 10 10"

text \<open>A fragment of a tenth of a second, followed contiguously by one of ten seconds.\<close>

definition frag_short :: MediaFragment where
  "frag_short = plain_frag 5 10 (1 / 10)"

definition frag_long :: MediaFragment where
  "frag_long = plain_frag 6 (101 / 10) 10"

text \<open>
  A fragment of an eighth of a second after \<open>frag_a\<close>, and a fragment that starts a
  little after its end.
\<close>

definition frag_tiny :: MediaFragment where
  "frag_tiny = plain_frag 1 10 (1 / 8)"

definition frag_late :: MediaFragment where
  "frag_late = plain_frag 2 (21 / 2) 10"

text \<open>A fragment to which no parser has given a program-date-time.\<close>

definition frag_no_pdt :: MediaFragment where
  "frag_no_pdt = (plain_frag 0 0 10)\<lparr>programDateTime := Undefined\<rparr>"

text \<open>A playlist request and two retry configurations.\<close>

definition ctx_example :: NetworkEngineContext where
  "ctx_example =
     \<lparr> ctx_type = MANIFEST, ctx_url = Some ''http://host/master.m3u8'', ctx_responseType = Some [],
       ctx_level = Some 0, ctx_id = None, ctx_isSidxRequest = False, ctx_frag = None \<rparr>"

definition opts_example :: NetworkEngineLoadOptions where
  "opts_example =
     \<lparr> opt_timeout = 10000, opt_retryDelay = Some 1000, opt_maxRetryDelay = Some 64000,
       opt_maxRetry = 3 \<rparr>"

definition opts_low_cap :: NetworkEngineLoadOptions where
  "opts_low_cap =
     \<lparr> opt_timeout = 10000, opt_retryDelay = Some 1000, opt_maxRetryDelay = Some 500,
       opt_maxRetry = 3 \<rparr>"

text \<open>A player configuration with the retry budgets of the defaults.\<close>

definition hls_config_example :: HlsConfig where
  "hls_config_example =
     \<lparr> manifestLoadingTimeOut = 10000, manifestLoadingMaxRetry = 1,
       manifestLoadingRetryDelay = 1000, manifestLoadingMaxRetryTimeout = 64000,
       levelLoadingTimeOut = 10000, levelLoadingMaxRetry = 4,
       levelLoadingRetryDelay = 1000, levelLoadingMaxRetryTimeout = 64000,
       fragLoadingTimeOut = 20000, fragLoadingRetryDelay = 1000,
       fragLoadingMaxRetryTimeout = 64000 \<rparr>"

text \<open>The request context that \<open>onManifestLoading\<close> and its siblings pass to \<open>load\<close>.\<close>

definition playlist_ctx :: "NetworkEngineContextType \<Rightarrow> NetworkEngineContext" where
  "playlist_ctx t =
     \<lparr> ctx_type = t, ctx_url = None, ctx_responseType = None,
       ctx_level = None, ctx_id = None, ctx_isSidxRequest = False, ctx_frag = None \<rparr>"

text \<open>
  The two fragments after \<open>frag_example\<close> under the same playlist key, a fragment under
  the key with the other URI, two fragments under the key with the explicit IV, and a
  fragment whose sequence number does not fit in 32 bits.
\<close>

definition frag_example2 :: MediaFragment where
  "frag_example2 = frag_example\<lparr>sn := 16909061, start := Fin 10\<rparr>"



definition frag_iv1 :: MediaFragment where
  "frag_iv1 = frag_example\<lparr>sn := 1, levelkey := Some 2\<rparr>"

definition frag_iv2 :: MediaFragment where
  "frag_iv2 = frag_example\<lparr>sn := 2, start := Fin 10, levelkey := Some 2\<rparr>"

definition frag_big_sn :: MediaFragment where
  "frag_big_sn = frag_example\<lparr>sn := 4294967301\<rparr>"






text \<open>
  The successful response with the key bytes 1, 2, 3 to a key request of \<open>frag_example\<close>,
  and to one of \<open>frag_iv1\<close>, which shares its key object with \<open>frag_iv2\<close>.
\<close>

definition key_success_example ::
  "(js_error + unit) \<times> KeyLoadingHandler \<times> MediaFragment \<times> KeyHeap \<times> action list" where
  "key_success_example =
     KeyLoadingHandler_handleSuccess build_example [1, 2, 3] frag_example new_KeyLoadingHandler
       heap_example"

definition key_success_shared ::
  "(js_error + unit) \<times> KeyLoadingHandler \<times> MediaFragment \<times> KeyHeap \<times> action list" where
  "key_success_shared =
     KeyLoadingHandler_handleSuccess build_example [1, 2, 3] frag_iv1 new_KeyLoadingHandler
       heap_example"




section \<open>Evaluation of double arithmetic\<close>

lemma bitlen_numeral [simp]:
  "bitlen 0 = 0" "bitlen (Suc 0) = Suc 0"
  "bitlen (numeral (Num.Bit0 k)) = Suc (bitlen (numeral k))"
  "bitlen (numeral (Num.Bit1 k)) = Suc (bitlen (numeral k))"
  "bitlen (numeral Num.One) = Suc 0"
proof -
  show "bitlen 0 = 0" by (simp add: bitlen.simps)
  show a: "bitlen (Suc 0) = Suc 0" by (simp add: bitlen.simps)
  show "bitlen (numeral (Num.Bit0 k)) = Suc (bitlen (numeral k))"
    by (subst bitlen.simps) (simp add: numeral_Bit0_div_2)
  show "bitlen (numeral (Num.Bit1 k)) = Suc (bitlen (numeral k))"
    by (subst bitlen.simps) (simp add: numeral_Bit1_div_2)
  show "bitlen (numeral Num.One) = Suc 0" using a by simp
qed

lemma floor_rat_numeral [simp]:
  "\<lfloor>(numeral a :: rat) / numeral b\<rfloor> = numeral a div numeral b"
  using floor_divide_of_int_eq[of "numeral a" "numeral b", where ?'a = rat] by simp

lemma ceiling_rat_numeral [simp]:
  "\<lceil>(numeral a :: rat) / numeral b\<rceil> = - (- numeral a div numeral b)"
  using ceiling_divide_eq_div[of "numeral a" "numeral b", where ?'a = rat] by simp

lemma ceiling_rat_one_numeral [simp]:
  "\<lceil>(1 :: rat) / numeral b\<rceil> = - (- 1 div numeral b)"
  using ceiling_divide_eq_div[of "1" "numeral b", where ?'a = rat] by simp

lemmas double_eval = round_double_def floor_log2_def round_half_even_def pow2_def Let_def

text \<open>
  The rounding at work: \<open>0.1 + 0.7\<close> is \<open>0.7999999999999999\<close>, below the exact sum of
  the two doubles.
\<close>

lemma round_double_tenth: "round_double (1 / 10) = Fin (3602879701896397 / 36028797018963968)"
  by (simp add: double_eval)

lemma round_double_seven_tenths: "round_double (7 / 10) = Fin (3152519739159347 / 4503599627370496)"
  by (simp add: double_eval)

lemma js_add_tenth_seven_tenths:
  "js_add (round_double (1 / 10)) (round_double (7 / 10)) = round_double (7999999999999999 / 10000000000000000)"
  "js_lt (js_add (round_double (1 / 10)) (round_double (7 / 10)))
         (Fin (3602879701896397 / 36028797018963968 + 3152519739159347 / 4503599627370496))"
  by (simp_all add: round_double_tenth round_double_seven_tenths js_lt_def) (simp_all add: double_eval)

text \<open>Small integers and the dyadic fractions of the examples are doubles.\<close>

lemma round_double_examples:
  "round_double 0 = Fin 0"
  "round_double 10 = Fin 10"
  "round_double 20 = Fin 20"
  "round_double (1 / 8) = Fin (1 / 8)"
  "round_double (21 / 2) = Fin (21 / 2)"
  "round_double 10000 = Fin 10000"
  "round_double 20000 = Fin 20000"
  by (simp_all add: double_eval)

section \<open>Order of numbers\<close>

lemma js_le_not_NaN: "js_le a b \<Longrightarrow> a \<noteq> NaN \<and> b \<noteq> NaN"
  by (cases a; cases b) simp_all


lemma js_le_total: "a \<noteq> NaN \<Longrightarrow> b \<noteq> NaN \<Longrightarrow> js_le a b \<or> js_le b a"
  by (cases a; cases b) auto


lemma js_le_lt_trans: "js_le a b \<Longrightarrow> js_lt b c \<Longrightarrow> js_lt a c"
  unfolding js_lt_def by (cases a; cases b; cases c) simp_all


lemma js_not_le_lt: "a \<noteq> NaN \<Longrightarrow> b \<noteq> NaN \<Longrightarrow> \<not> js_le a b \<Longrightarrow> js_lt b a"
  unfolding js_lt_def by (cases a; cases b) auto

lemma js_not_lt_le: "a \<noteq> NaN \<Longrightarrow> b \<noteq> NaN \<Longrightarrow> \<not> js_lt a b \<Longrightarrow> js_le b a"
  unfolding js_lt_def by (cases a; cases b) auto


section \<open>Derived initialization vector\<close>

lemma iv_word_eq:
  assumes "n + 8 \<le> 32"
  shows "(signed_drop_bit n (word_of_int s :: 32 word) AND mask 8)
           = (word_of_int (take_bit 8 (drop_bit n s)) :: 32 word)"
  apply (rule bit_word_eqI)
  using assms
  apply (auto simp add: bit_simps)
  done

lemma iv_byte_eq:
  assumes "n + 8 \<le> 32"
  shows "unat (signed_drop_bit n (word_of_int s :: 32 word) AND 255) = nat ((s div 2 ^ n) mod 256)"
proof -
  have m: "(255 :: 32 word) = mask 8" by (simp add: mask_eq_exp_minus_1)
  have "unat (signed_drop_bit n (word_of_int s :: 32 word) AND 255)
      = unat (word_of_int (take_bit 8 (drop_bit n s)) :: 32 word)"
    unfolding m using iv_word_eq[OF assms] by simp
  also have "\<dots> = nat (take_bit 32 (take_bit 8 (drop_bit n s)))"
    by (simp add: unat_eq_nat_uint uint_word_of_int_eq)
  also have "\<dots> = nat (take_bit 8 (drop_bit n s))" by simp
  also have "\<dots> = nat ((s div 2 ^ n) mod 256)"
    by (simp add: take_bit_eq_mod drop_bit_eq_div)
  finally show ?thesis .
qed

lemma iv_bytes:
  "iv_byte s 12 = nat (s div 16777216 mod 256)"
  "iv_byte s 13 = nat (s div 65536 mod 256)"
  "iv_byte s 14 = nat (s div 256 mod 256)"
  "iv_byte s 15 = nat (s mod 256)"
proof -
  have e: "8 * (15 - 12) = (24::nat)" "8 * (15 - 13) = (16::nat)"
    "8 * (15 - 14) = (8::nat)" "8 * (15 - 15) = (0::nat)" by simp_all
  have p: "(2::int) ^ 24 = 16777216" "(2::int) ^ 16 = 65536" "(2::int) ^ 8 = 256" "s div 2 ^ 0 = s"
    by simp_all
  show "iv_byte s 12 = nat (s div 16777216 mod 256)"
    unfolding iv_byte_def e by (rule iv_byte_eq[of 24 s, unfolded p]) simp
  show "iv_byte s 13 = nat (s div 65536 mod 256)"
    unfolding iv_byte_def e by (rule iv_byte_eq[of 16 s, unfolded p]) simp
  show "iv_byte s 14 = nat (s div 256 mod 256)"
    unfolding iv_byte_def e by (rule iv_byte_eq[of 8 s, unfolded p]) simp
  show "iv_byte s 15 = nat (s mod 256)"
    unfolding iv_byte_def e by (rule iv_byte_eq[of 0 s, unfolded p]) simp
qed

lemma createInitializationVector_bytes:
  "createInitializationVector s =
     replicate 12 0 @ [nat (s div 16777216 mod 256), nat (s div 65536 mod 256),
                       nat (s div 256 mod 256), nat (s mod 256)]"
proof -
  have "createInitializationVector s =
      replicate 12 0 @ [iv_byte s 12, iv_byte s 13, iv_byte s 14, iv_byte s 15]"
    unfolding createInitializationVector_def
    by (simp add: numeral_eq_Suc replicate_Suc)
  then show ?thesis by (simp only: iv_bytes)
qed



lemma example_keys:
  "heap_keys heap_example 0 = key_example" "heap_keys heap_example 1 = key_other"
  "heap_keys heap_example 2 = key_with_iv" "heap_next heap_example = 3"
  "heap_keys heap_example (Suc 0) = key_other"
  by (simp_all add: heap_example_def)

lemma example_key_truthy:
  "truthy_str (key_method key_example)" "truthy_str (LevelKey_uri build_example key_example)"
  "iv key_example = None"
  "truthy_str (key_method key_other)" "truthy_str (LevelKey_uri build_example key_other)"
  "iv key_other = None"
  by (simp_all add: key_example_def key_other_def truthy_str_def LevelKey_uri_def build_example_def)

lemma example_key_uris:
  "LevelKey_uri build_example key_example = Some ''http://host/key.bin''"
  "LevelKey_uri build_example key_other = Some ''http://host/other.bin''"
  "LevelKey_uri build_example key_with_iv = Some ''http://host/fixed.bin''"
  by (simp_all add: key_example_def key_other_def key_with_iv_def LevelKey_uri_def build_example_def)


text \<open>
  The claim as stated fails for a sequence number that does not fit in 32 bits: for the
  sequence number \<open>2^32 + 5\<close> the last four bytes of the derived IV are \<open>0, 0, 0, 5\<close>,
  the big-endian bytes of 5.
\<close>

theorem derived_iv_wraps_at_32_bits:
  "sn frag_big_sn = 4294967301
   \<and> fst (decryptdata build_example frag_big_sn heap_example) = Some 3
   \<and> iv (heap_keys (snd (snd (decryptdata build_example frag_big_sn heap_example))) 3)
       = Some [0, 0, 0, 0, 0, 0, 0, 0, 0, 0, 0, 0, 0, 0, 0, 5]"
  by (simp add: decryptdata_def createDecryptDataFromLevelkey_def alloc_LevelKey_def
        frag_big_sn_def frag_example_def example_keys example_key_truthy Let_def
        createInitializationVector_bytes new_LevelKey_def numeral_eq_Suc)

section \<open>Selection by program-date-time\<close>

lemma pdt_scan_None_iff:
  "pdt_scan fs v tol = None \<longleftrightarrow> (\<forall>f \<in> set fs. \<not> isPdtWithinToleranceTest f v tol)"
  by (induction fs) auto

lemma pdt_scan_Some_first:
  "pdt_scan fs v tol = Some f \<Longrightarrow>
     \<exists>i < length fs. fs ! i = f \<and> isPdtWithinToleranceTest f v tol
        \<and> (\<forall>j < i. \<not> isPdtWithinToleranceTest (fs ! j) v tol)"
proof (induction fs)
  case Nil
  then show ?case by simp
next
  case (Cons a fs)
  show ?case
  proof (cases "isPdtWithinToleranceTest a v tol")
    case True
    with Cons.prems have "a = f" by simp
    with True show ?thesis by (intro exI[of _ 0]) simp
  next
    case False
    with Cons.prems have "pdt_scan fs v tol = Some f" by simp
    from Cons.IH[OF this] obtain i where i: "i < length fs" "fs ! i = f"
      "isPdtWithinToleranceTest f v tol"
      "\<forall>j < i. \<not> isPdtWithinToleranceTest (fs ! j) v tol" by blast
    have "\<forall>j < Suc i. \<not> isPdtWithinToleranceTest ((a # fs) ! j) v tol"
    proof (intro allI impI)
      fix j assume "j < Suc i"
      then show "\<not> isPdtWithinToleranceTest ((a # fs) ! j) v tol"
        using False i(4) by (cases j) simp_all
    qed
    with i show ?thesis by (intro exI[of _ "Suc i"]) simp
  qed
qed

lemma isPdtWithinToleranceTest_alt:
  "isPdtWithinToleranceTest f v tol \<longleftrightarrow>
     js_gt (js_sub (toNumber (endProgramDateTime f))
                   (js_mul (candidateLookupTolerance f tol) (Fin 1000))) v"
  by (simp add: isPdtWithinToleranceTest_def Let_def)

lemma plain_frag_pdt:
  "programDateTime frag_a = Number (Fin 0)"
  "endProgramDateTime frag_a = Number (Fin 10000)"
  "endProgramDateTime frag_b = Number (Fin 20000)"
  "candidateLookupTolerance frag_a (Fin (1 / 4)) = Fin (1 / 4)"
  "candidateLookupTolerance frag_b (Fin (1 / 4)) = Fin (1 / 4)"
  by (simp_all add: frag_a_def frag_b_def plain_frag_def endProgramDateTime_def
        candidateLookupTolerance_def isFinite_value_def Number_isFinite_def toNumber_def
        truthy_value_def Math_min_def round_double_examples Let_def double_eval)

lemma frag_no_pdt_values:
  "programDateTime frag_no_pdt = Undefined"
  "endProgramDateTime frag_no_pdt = Null"
  "candidateLookupTolerance frag_no_pdt (Fin 0) = Fin 0"
  by (simp_all add: frag_no_pdt_def plain_frag_def endProgramDateTime_def
        candidateLookupTolerance_def isFinite_value_def truthy_value_def Math_min_def
        round_double_examples double_eval)

text \<open>
  Claim C2, as the code has it.  \<open>findFragmentByPDT\<close> returns \<open>null\<close> exactly when the
  list is empty, the value is not finite, the value is less than the first fragment's
  program-date-time, the value is at or after the last fragment's end program-date-time,
  or no fragment's tolerance-adjusted end program-date-time
  (\<open>endProgramDateTime - min(tolerance, duration + deltaPTS) * 1000\<close>) strictly exceeds the
  value; otherwise it returns the first fragment in list order whose tolerance-adjusted
  end strictly exceeds the value.  The comparisons and the arithmetic are JavaScript's:
  a program-date-time that was never assigned compares false, a \<open>null\<close> end
  program-date-time counts as 0, and a falsy tolerance is 0.
\<close>

theorem findFragmentByPDT_first_adjusted_end:
  "(findFragmentByPDT fs pdt tol = None \<longleftrightarrow>
      fs = [] \<or> \<not> Number_isFinite pdt
      \<or> js_lt pdt (toNumber (programDateTime (hd fs)))
      \<or> js_ge pdt (toNumber (endProgramDateTime (last fs)))
      \<or> (\<forall>f \<in> set fs.
            \<not> js_gt (js_sub (toNumber (endProgramDateTime f))
                          (js_mul (candidateLookupTolerance f (if js_truthy tol then tol else Fin 0))
                                  (Fin 1000))) pdt))
   \<and> (\<forall>f. findFragmentByPDT fs pdt tol = Some f \<longrightarrow>
         (\<exists>i < length fs. fs ! i = f
            \<and> js_gt (js_sub (toNumber (endProgramDateTime f))
                          (js_mul (candidateLookupTolerance f (if js_truthy tol then tol else Fin 0))
                                  (Fin 1000))) pdt
            \<and> (\<forall>j < i. \<not> js_gt (js_sub (toNumber (endProgramDateTime (fs ! j)))
                          (js_mul (candidateLookupTolerance (fs ! j) (if js_truthy tol then tol else Fin 0))
                                  (Fin 1000))) pdt)))"
proof (intro conjI allI impI)
  show "findFragmentByPDT fs pdt tol = None \<longleftrightarrow>
      fs = [] \<or> \<not> Number_isFinite pdt
      \<or> js_lt pdt (toNumber (programDateTime (hd fs)))
      \<or> js_ge pdt (toNumber (endProgramDateTime (last fs)))
      \<or> (\<forall>f \<in> set fs.
            \<not> js_gt (js_sub (toNumber (endProgramDateTime f))
                          (js_mul (candidateLookupTolerance f (if js_truthy tol then tol else Fin 0))
                                  (Fin 1000))) pdt)"
    by (auto simp: findFragmentByPDT_def pdt_scan_None_iff isPdtWithinToleranceTest_alt)
next
  fix f
  assume h: "findFragmentByPDT fs pdt tol = Some f"
  then have "pdt_scan fs pdt (if js_truthy tol then tol else Fin 0) = Some f"
    by (simp add: findFragmentByPDT_def split: if_splits)
  from pdt_scan_Some_first[OF this]
  show "\<exists>i < length fs. fs ! i = f
            \<and> js_gt (js_sub (toNumber (endProgramDateTime f))
                          (js_mul (candidateLookupTolerance f (if js_truthy tol then tol else Fin 0))
                                  (Fin 1000))) pdt
            \<and> (\<forall>j < i. \<not> js_gt (js_sub (toNumber (endProgramDateTime (fs ! j)))
                          (js_mul (candidateLookupTolerance (fs ! j) (if js_truthy tol then tol else Fin 0))
                                  (Fin 1000))) pdt)"
    unfolding isPdtWithinToleranceTest_alt by blast
qed

theorem findFragmentByPDT_first_adjusted_end_witness:
  "findFragmentByPDT [frag_a, frag_b] (Fin 12000) (Fin (1 / 4)) = Some frag_b
   \<and> js_gt (js_sub (toNumber (endProgramDateTime frag_b))
                   (js_mul (candidateLookupTolerance frag_b (Fin (1 / 4))) (Fin 1000))) (Fin 12000)
   \<and> \<not> js_gt (js_sub (toNumber (endProgramDateTime frag_a))
                   (js_mul (candidateLookupTolerance frag_a (Fin (1 / 4))) (Fin 1000))) (Fin 12000)
   \<and> findFragmentByPDT [frag_no_pdt] (Fin (- 5)) (Fin 0) = Some frag_no_pdt
   \<and> \<not> js_lt (Fin (- 5)) (toNumber (programDateTime frag_no_pdt))"
proof -
  have ta: "\<not> js_gt (js_sub (toNumber (endProgramDateTime frag_a))
                   (js_mul (candidateLookupTolerance frag_a (Fin (1 / 4))) (Fin 1000))) (Fin 12000)"
    and tb: "js_gt (js_sub (toNumber (endProgramDateTime frag_b))
                   (js_mul (candidateLookupTolerance frag_b (Fin (1 / 4))) (Fin 1000))) (Fin 12000)"
    by (simp_all add: plain_frag_pdt toNumber_def js_sub_def js_gt_def js_lt_def)
       (simp_all add: double_eval)
  have r: "findFragmentByPDT [frag_a, frag_b] (Fin 12000) (Fin (1 / 4)) = Some frag_b"
    using ta tb
    by (simp add: findFragmentByPDT_def isPdtWithinToleranceTest_alt plain_frag_pdt toNumber_def
          Number_isFinite_def js_truthy_def js_lt_def js_ge_def)
  from findFragmentByPDT_first_adjusted_end[of "[frag_a, frag_b]" "Fin 12000" "Fin (1 / 4)",
         THEN conjunct2, rule_format, OF r]
  obtain i where i: "i < length [frag_a, frag_b]" "[frag_a, frag_b] ! i = frag_b"
    "js_gt (js_sub (toNumber (endProgramDateTime frag_b))
              (js_mul (candidateLookupTolerance frag_b
                         (if js_truthy (Fin (1 / 4)) then Fin (1 / 4) else Fin 0)) (Fin 1000)))
           (Fin 12000)"
    by auto
  have tn: "js_gt (js_sub (toNumber (endProgramDateTime frag_no_pdt))
              (js_mul (candidateLookupTolerance frag_no_pdt (Fin 0)) (Fin 1000))) (Fin (- 5))"
    by (simp add: frag_no_pdt_values toNumber_def js_sub_def js_gt_def js_lt_def)
       (simp add: double_eval)
  have nl: "\<not> js_lt (Fin (- 5)) (toNumber (programDateTime frag_no_pdt))"
    by (simp add: frag_no_pdt_values toNumber_def js_lt_def)
  have nn: "findFragmentByPDT [frag_no_pdt] (Fin (- 5)) (Fin 0) \<noteq> None"
    using findFragmentByPDT_first_adjusted_end[of "[frag_no_pdt]" "Fin (- 5)" "Fin 0",
            THEN conjunct1] tn nl
    by (simp add: Number_isFinite_def js_truthy_def js_ge_def frag_no_pdt_values toNumber_def)
  then obtain g where g: "findFragmentByPDT [frag_no_pdt] (Fin (- 5)) (Fin 0) = Some g" by auto
  from findFragmentByPDT_first_adjusted_end[of "[frag_no_pdt]" "Fin (- 5)" "Fin 0",
         THEN conjunct2, rule_format, OF g]
  have "g = frag_no_pdt" by auto
  with g r ta i(3) nl show ?thesis by (simp add: js_truthy_def)
qed

text \<open>
  The claim as stated fails: inside the list's program-date-time range, but within the
  tolerance of the last fragment's end, no fragment passes the test and the result is
  \<open>null\<close> although none of the four stated conditions holds.
\<close>

theorem findFragmentByPDT_null_inside_range:
  "findFragmentByPDT [frag_a, frag_b] (Fin 19900) (Fin (1 / 4)) = None
   \<and> [frag_a, frag_b] \<noteq> []
   \<and> Number_isFinite (Fin 19900)
   \<and> \<not> js_lt (Fin 19900) (toNumber (programDateTime (hd [frag_a, frag_b])))
   \<and> \<not> js_ge (Fin 19900) (toNumber (endProgramDateTime (last [frag_a, frag_b])))"
proof -
  have ta: "\<not> js_gt (js_sub (toNumber (endProgramDateTime frag_a))
                   (js_mul (candidateLookupTolerance frag_a (Fin (1 / 4))) (Fin 1000))) (Fin 19900)"
    and tb: "\<not> js_gt (js_sub (toNumber (endProgramDateTime frag_b))
                   (js_mul (candidateLookupTolerance frag_b (Fin (1 / 4))) (Fin 1000))) (Fin 19900)"
    by (simp_all add: plain_frag_pdt toNumber_def js_sub_def js_gt_def js_lt_def)
       (simp_all add: double_eval)
  show ?thesis
    using ta tb
    by (simp add: findFragmentByPDT_def isPdtWithinToleranceTest_alt plain_frag_pdt toNumber_def
          Number_isFinite_def js_truthy_def js_lt_def js_ge_def)
qed

section \<open>Selection by buffer position\<close>

lemma search_loop_sorted:
  assumes "0 \<le> lo" and "hi < int (length xs)" and "lo \<le> int k" and "int k \<le> hi"
    and "cmp (xs ! k) = 0"
    and "\<And>i. lo \<le> int i \<Longrightarrow> i < k \<Longrightarrow> cmp (xs ! i) > 0"
    and "\<And>i. k < i \<Longrightarrow> int i \<le> hi \<Longrightarrow> cmp (xs ! i) < 0"
  shows "search_loop cmp xs lo hi = Some (xs ! k)"
  using assms
proof (induction cmp xs lo hi rule: search_loop.induct)
  case (1 cmp xs lo hi)
  define mid where "mid = (lo + hi) div 2"
  have lohi: "lo \<le> hi" using "1.prems"(3,4) by simp
  have mid_lo: "lo \<le> mid" and mid_hi: "mid \<le> hi" using lohi by (auto simp: mid_def)
  have mid_nat: "int (nat mid) = mid" using "1.prems"(1) mid_lo by simp
  have unfold: "search_loop cmp xs lo hi =
      (if cmp (xs ! nat mid) > 0 then search_loop cmp xs (mid + 1) hi
       else if cmp (xs ! nat mid) < 0 then search_loop cmp xs lo (mid - 1)
       else Some (xs ! nat mid))"
    using lohi by (subst search_loop.simps) (simp add: mid_def Let_def)
  consider (lt) "nat mid < k" | (eq) "nat mid = k" | (gt) "k < nat mid" by linarith
  then show ?case
  proof cases
    case lt
    have pos: "cmp (xs ! nat mid) > 0"
      using "1.prems"(6)[of "nat mid"] mid_lo mid_nat lt by simp
    have k_lo: "mid + 1 \<le> int k" using lt mid_nat by linarith
    have "search_loop cmp xs (mid + 1) hi = Some (xs ! k)"
    proof (rule "1.IH"(1)[OF lohi mid_def refl refl pos])
      show "0 \<le> mid + 1" using "1.prems"(1) mid_lo by simp
      show "hi < int (length xs)" by (rule "1.prems"(2))
      show "mid + 1 \<le> int k" by (rule k_lo)
      show "int k \<le> hi" by (rule "1.prems"(4))
      show "cmp (xs ! k) = 0" by (rule "1.prems"(5))
      show "0 < cmp (xs ! i)" if "mid + 1 \<le> int i" and "i < k" for i
        using "1.prems"(6)[of i] that mid_lo by simp
      show "cmp (xs ! i) < 0" if "k < i" and "int i \<le> hi" for i
        using "1.prems"(7)[of i] that by simp
    qed
    then show ?thesis using pos unfold by simp
  next
    case eq
    then show ?thesis using "1.prems"(5) unfold by simp
  next
    case gt
    have neg: "cmp (xs ! nat mid) < 0"
      using "1.prems"(7)[of "nat mid"] mid_hi mid_nat gt by simp
    then have notpos: "\<not> 0 < cmp (xs ! nat mid)" by simp
    have k_hi: "int k \<le> mid - 1" using gt mid_nat by linarith
    have "search_loop cmp xs lo (mid - 1) = Some (xs ! k)"
    proof (rule "1.IH"(2)[OF lohi mid_def refl refl notpos neg])
      show "0 \<le> lo" by (rule "1.prems"(1))
      show "mid - 1 < int (length xs)" using "1.prems"(2) mid_hi by simp
      show "lo \<le> int k" by (rule "1.prems"(3))
      show "int k \<le> mid - 1" by (rule k_hi)
      show "cmp (xs ! k) = 0" by (rule "1.prems"(5))
      show "0 < cmp (xs ! i)" if "lo \<le> int i" and "i < k" for i
        using "1.prems"(6)[of i] that by simp
      show "cmp (xs ! i) < 0" if "k < i" and "int i \<le> mid - 1" for i
        using "1.prems"(7)[of i] that mid_hi by simp
    qed
    then show ?thesis using neg notpos unfold by simp
  qed
qed

lemma BinarySearch_search_sorted:
  assumes "k < length xs" and "cmp (xs ! k) = 0"
    and "\<And>i. i < k \<Longrightarrow> cmp (xs ! i) > 0"
    and "\<And>i. k < i \<Longrightarrow> i < length xs \<Longrightarrow> cmp (xs ! i) < 0"
  shows "BinarySearch_search xs cmp = Some (xs ! k)"
  unfolding BinarySearch_search_def
proof (rule search_loop_sorted)
  show "(0::int) \<le> 0" by simp
  show "int (length xs) - 1 < int (length xs)" by simp
  show "0 \<le> int k" by simp
  show "int k \<le> int (length xs) - 1" using assms(1) by simp
  show "cmp (xs ! k) = 0" by (rule assms(2))
  show "0 < cmp (xs ! i)" if "0 \<le> int i" and "i < k" for i using assms(3) that by simp
  show "cmp (xs ! i) < 0" if "k < i" and "int i \<le> int (length xs) - 1" for i
    using assms(4)[of i] that by simp
qed


lemma compareFragmentWithTolerance_rule:
  "compareFragmentWithTolerance c be tol = 1 \<longleftrightarrow> js_le (adjustedEnd c tol) be"
  "compareFragmentWithTolerance c be tol = - 1 \<longleftrightarrow>
     \<not> js_le (adjustedEnd c tol) be \<and> js_gt (adjustedStart c tol) be \<and> js_truthy (start c)"
  "compareFragmentWithTolerance c be tol = 0 \<longleftrightarrow>
     \<not> js_le (adjustedEnd c tol) be \<and> \<not> (js_gt (adjustedStart c tol) be \<and> js_truthy (start c))"
  by (auto simp: compareFragmentWithTolerance_def Let_def)

lemma plain_frag_sel:
  "sn (plain_frag n s d) = n" "start (plain_frag n s d) = round_double s"
  "duration (plain_frag n s d) = round_double d"
  "deltaPTS (plain_frag n s d) = Undefined"
  by (simp_all add: plain_frag_def)

lemma candidateLookupTolerance_plain_frag:
  "candidateLookupTolerance (plain_frag n s d) tol
     = Math_min tol (js_add (round_double d) (Fin 0))"
  by (simp add: candidateLookupTolerance_def plain_frag_sel truthy_value_def)


lemma example_intervals:
  "adjustedStart frag_a (Fin (1 / 4)) = Fin (- (1 / 4))"
  "adjustedEnd frag_a (Fin (1 / 4)) = Fin (39 / 4)"
  "adjustedStart frag_b (Fin (1 / 4)) = Fin (39 / 4)"
  "adjustedEnd frag_b (Fin (1 / 4)) = Fin (79 / 4)"
  "adjustedStart frag_tiny (Fin (1 / 4)) = Fin (79 / 8)"
  "adjustedEnd frag_tiny (Fin (1 / 4)) = Fin 10"
  "adjustedStart frag_late (Fin (1 / 4)) = Fin (41 / 4)"
  "adjustedEnd frag_late (Fin (1 / 4)) = Fin (81 / 4)"
  by (simp_all add: frag_a_def frag_b_def frag_tiny_def frag_late_def
        candidateLookupTolerance_plain_frag plain_frag_sel round_double_examples
        Math_min_def js_sub_def double_eval)





text \<open>
  Claim C3, as the code has it.  When the fragment at index
  \<open>fragPrevious.sn - fragments[0].sn + 1\<close> exists and the comparator is 0 on it,
  \<open>findFragmentByPTS\<close> returns it, whatever a full search would return; the full binary
  search returns the same fragment whenever the list is sorted for the comparator around
  it (comparator positive on every earlier fragment and negative on every later one).
\<close>

theorem findFragmentByPTS_fast_path:
  assumes nx: "js_index fs (sn p - sn (hd fs) + 1) = Some nxt"
    and c0: "compareFragmentWithTolerance nxt b tol = 0"
  shows "findFragmentByPTS (Some p) fs b tol = Inr (Some nxt)
         \<and> (\<forall>k. k < length fs \<and> fs ! k = nxt
                \<and> (\<forall>i < k. compareFragmentWithTolerance (fs ! i) b tol > 0)
                \<and> (\<forall>i. k < i \<and> i < length fs \<longrightarrow> compareFragmentWithTolerance (fs ! i) b tol < 0)
              \<longrightarrow> BinarySearch_search fs (\<lambda>f. compareFragmentWithTolerance f b tol) = Some nxt)"
proof (intro conjI allI impI)
  have ne: "fs \<noteq> []" using nx by (auto simp: js_index_def split: if_splits)
  then obtain first rest where fs: "fs = first # rest" by (cases fs) auto
  show "findFragmentByPTS (Some p) fs b tol = Inr (Some nxt)"
    using nx c0 unfolding fs by (simp add: findFragmentByPTS_def)
next
  fix k
  assume h: "k < length fs \<and> fs ! k = nxt
                \<and> (\<forall>i < k. compareFragmentWithTolerance (fs ! i) b tol > 0)
                \<and> (\<forall>i. k < i \<and> i < length fs \<longrightarrow> compareFragmentWithTolerance (fs ! i) b tol < 0)"
  have "BinarySearch_search fs (\<lambda>f. compareFragmentWithTolerance f b tol) = Some (fs ! k)"
  proof (rule BinarySearch_search_sorted)
    show "k < length fs" using h by simp
    show "compareFragmentWithTolerance (fs ! k) b tol = 0" using h c0 by simp
    show "0 < compareFragmentWithTolerance (fs ! i) b tol" if "i < k" for i using h that by simp
    show "compareFragmentWithTolerance (fs ! i) b tol < 0" if "k < i" and "i < length fs" for i
      using h that by simp
  qed
  then show "BinarySearch_search fs (\<lambda>f. compareFragmentWithTolerance f b tol) = Some nxt"
    using h by simp
qed

theorem findFragmentByPTS_fast_path_witness:
  "findFragmentByPTS (Some frag_a) [frag_a, frag_b] (Fin 12) (Fin (1 / 4)) = Inr (Some frag_b)
   \<and> BinarySearch_search [frag_a, frag_b] (\<lambda>f. compareFragmentWithTolerance f (Fin 12) (Fin (1 / 4)))
       = Some frag_b"
proof -
  have ca: "compareFragmentWithTolerance frag_a (Fin 12) (Fin (1 / 4)) = 1"
    unfolding compareFragmentWithTolerance_rule example_intervals by simp
  have cb: "compareFragmentWithTolerance frag_b (Fin 12) (Fin (1 / 4)) = 0"
    unfolding compareFragmentWithTolerance_rule example_intervals
    by (simp add: js_gt_def js_lt_def)
  have nx: "js_index [frag_a, frag_b] (sn frag_a - sn (hd [frag_a, frag_b]) + 1) = Some frag_b"
    by (simp add: js_index_def)
  note t = findFragmentByPTS_fast_path[OF nx cb]
  have sorted: "1 < length [frag_a, frag_b] \<and> [frag_a, frag_b] ! 1 = frag_b
      \<and> (\<forall>i < 1. compareFragmentWithTolerance ([frag_a, frag_b] ! i) (Fin 12) (Fin (1 / 4)) > 0)
      \<and> (\<forall>i. 1 < i \<and> i < length [frag_a, frag_b]
            \<longrightarrow> compareFragmentWithTolerance ([frag_a, frag_b] ! i) (Fin 12) (Fin (1 / 4)) < 0)"
    using ca by simp
  from t[THEN conjunct2, rule_format, OF sorted] t[THEN conjunct1]
  show ?thesis by simp
qed

lemma short_long_intervals:
  "round_double (199 / 20) = Fin (2800676018271027 / 281474976710656)"
  "adjustedStart frag_short (Fin (1 / 4)) = Fin (5573204538870989 / 562949953421312)"
  "adjustedEnd frag_short (Fin (1 / 4)) = Fin 10"
  "adjustedStart frag_long (Fin (1 / 4)) = Fin (5545057041199923 / 562949953421312)"
  "adjustedEnd frag_long (Fin (1 / 4)) = Fin (2793639143853261 / 140737488355328)"
  by (simp_all add: frag_short_def frag_long_def candidateLookupTolerance_plain_frag plain_frag_sel
        Math_min_def js_sub_def double_eval)

text \<open>
  The claim as stated fails: a fragment of 0.1 s at 10 s followed by a fragment of 10 s,
  tolerance 0.25 and \<open>bufferEnd = 9.95\<close>.  The comparator is 0 on both fragments; the fast
  path returns the successor, the full binary search the short fragment.
\<close>

theorem findFragmentByPTS_fast_path_differs:
  "js_index [frag_short, frag_long] (sn frag_short - sn (hd [frag_short, frag_long]) + 1) = Some frag_long
   \<and> compareFragmentWithTolerance frag_long (round_double (199 / 20)) (Fin (1 / 4)) = 0
   \<and> findFragmentByPTS (Some frag_short) [frag_short, frag_long] (round_double (199 / 20)) (Fin (1 / 4))
       = Inr (Some frag_long)
   \<and> BinarySearch_search [frag_short, frag_long]
        (\<lambda>f. compareFragmentWithTolerance f (round_double (199 / 20)) (Fin (1 / 4))) = Some frag_short
   \<and> frag_short \<noteq> frag_long"
proof -
  have cs: "compareFragmentWithTolerance frag_short (round_double (199 / 20)) (Fin (1 / 4)) = 0"
    and cl: "compareFragmentWithTolerance frag_long (round_double (199 / 20)) (Fin (1 / 4)) = 0"
    unfolding compareFragmentWithTolerance_rule short_long_intervals
    by (simp_all add: js_gt_def js_lt_def)
  have nx: "js_index [frag_short, frag_long] (sn frag_short - sn (hd [frag_short, frag_long]) + 1)
              = Some frag_long"
    by (simp add: js_index_def)
  have s: "search_loop (\<lambda>f. compareFragmentWithTolerance f (round_double (199 / 20)) (Fin (1 / 4)))
             [frag_short, frag_long] 0 1 = Some frag_short"
    by (simp add: search_loop.simps cs Let_def)
  have bs: "BinarySearch_search [frag_short, frag_long]
        (\<lambda>f. compareFragmentWithTolerance f (round_double (199 / 20)) (Fin (1 / 4))) = Some frag_short"
    using s by (simp add: BinarySearch_search_def)
  have fp: "findFragmentByPTS (Some frag_short) [frag_short, frag_long] (round_double (199 / 20)) (Fin (1 / 4))
              = Inr (Some frag_long)"
    using nx cl by (simp add: findFragmentByPTS_def)
  have ne: "frag_short \<noteq> frag_long"
  proof
    assume "frag_short = frag_long"
    then have "sn frag_short = sn frag_long" by simp
    then show False by (simp add: frag_short_def frag_long_def plain_frag_sel)
  qed
  show ?thesis using nx cl fp bs ne by blast
qed

section \<open>Retries of the transport engine\<close>

lemma replicate_4_plus: "replicate (4 + n) x = x # x # x # x # replicate n x"
  by (simp add: numeral_eq_Suc)

lemma load_fresh:
  "load ctx cfg new_NetworkEngine =
     (Inr (),
      \<lparr> xhr = Some 1, requestTimeout = Armed (Some (opt_timeout cfg)), retryTimeout = NoTimer,
        cur_retryDelay = opt_retryDelay cfg, eng_config = Some cfg, eng_context = Some ctx,
        stats_retry = 0, stats_aborted = False \<rparr>,
      [XhrSend (ctx_url ctx)])"
  by (simp add: load_def execRequest_def new_NetworkEngine_def)

text \<open>A failed response that is retried, and the firing of the retry timer.\<close>

lemma handleReadyStateChange_retry:
  assumes "\<not> stats_aborted e" and "eng_config e = Some cfg"
    and "stats_retry e < opt_maxRetry cfg"
    and "\<not> (200 \<le> status \<and> status < 300)" and "\<not> (400 \<le> status \<and> status < 499)"
  shows "handleReadyStateChange 4 status e =
           (e\<lparr>xhr := None, requestTimeout := NoTimer,
              retryTimeout := Armed (cur_retryDelay e),
              cur_retryDelay := backoff (cur_retryDelay e) (opt_maxRetryDelay cfg),
              stats_retry := stats_retry e + 1\<rparr>,
            [RetryScheduled (cur_retryDelay e)])"
proof -
  have a: "(200 \<le> status \<and> status < 300) = False" using assms(4) by simp
  have b: "(400 \<le> status \<and> status < 499) = False" using assms(5) by simp
  have c: "(opt_maxRetry cfg \<le> stats_retry e) = False" using assms(3) by simp
  have d: "stats_aborted e = False" using assms(1) by simp
  show ?thesis
    by (simp add: handleReadyStateChange_def destroy_def abort_def Let_def a b c d assms(2))
qed

lemma handleReadyStateChange_error:
  assumes "\<not> stats_aborted e" and "eng_config e = Some cfg"
    and "opt_maxRetry cfg \<le> stats_retry e \<or> (400 \<le> status \<and> status < 499)"
    and "\<not> (200 \<le> status \<and> status < 300)"
  shows "handleReadyStateChange 4 status e =
           (e\<lparr>xhr := Some 4, requestTimeout := NoTimer\<rparr>, [OnError status])"
proof -
  have a: "(200 \<le> status \<and> status < 300) = False" using assms(4) by simp
  have c: "(opt_maxRetry cfg \<le> stats_retry e \<or> (400 \<le> status \<and> status < 499)) = True"
    using assms(3) by simp
  have d: "stats_aborted e = False" using assms(1) by simp
  show ?thesis
    by (simp add: handleReadyStateChange_def Let_def a c d assms(2))
qed

lemma retry_step:
  assumes "\<not> stats_aborted e" and "eng_config e = Some cfg" and "eng_context e = Some ctx"
    and "stats_retry e < opt_maxRetry cfg"
    and "\<not> (200 \<le> status \<and> status < 300)" and "\<not> (400 \<le> status \<and> status < 499)"
  shows "run_responses e (status # rest) =
           (case run_responses
                   (e\<lparr>cur_retryDelay := backoff (cur_retryDelay e) (opt_maxRetryDelay cfg),
                      stats_retry := stats_retry e + 1,
                      retryTimeout := NoTimer,
                      xhr := Some 1,
                      requestTimeout := Armed (Some (opt_timeout cfg))\<rparr>) rest of
              (e3, fx3) \<Rightarrow> (e3, RetryScheduled (cur_retryDelay e) # XhrSend (ctx_url ctx) # fx3))"
  by (simp add: handleReadyStateChange_retry[OF assms(1,2,4,5,6)] fireRetryTimer_def
        execRequest_def assms(2,3) split: prod.splits)

lemma error_step:
  assumes "\<not> stats_aborted e" and "eng_config e = Some cfg" and "retryTimeout e = NoTimer"
    and "opt_maxRetry cfg \<le> stats_retry e \<or> (400 \<le> status \<and> status < 499)"
    and "\<not> (200 \<le> status \<and> status < 300)"
  shows "run_responses e (status # rest) =
           (e\<lparr>xhr := Some 4, requestTimeout := NoTimer\<rparr>, [OnError status])"
  by (simp add: handleReadyStateChange_error[OF assms(1,2,4,5)] assms(3))

lemma load_requesting:
  "load ctx cfg new_NetworkEngine = (Inr (), requesting cfg ctx 0 (opt_retryDelay cfg), [XhrSend (ctx_url ctx)])"
  by (simp add: load_fresh requesting_def)

lemma requesting_retry:
  assumes "r < opt_maxRetry cfg"
    and "\<not> (200 \<le> status \<and> status < 300)" and "\<not> (400 \<le> status \<and> status < 499)"
  shows "snd (run_responses (requesting cfg ctx r dly) (status # rest)) =
           RetryScheduled dly # XhrSend (ctx_url ctx)
             # snd (run_responses (requesting cfg ctx (r + 1) (backoff dly (opt_maxRetryDelay cfg))) rest)"
proof -
  have n: "(requesting cfg ctx r dly)
             \<lparr>cur_retryDelay := backoff (cur_retryDelay (requesting cfg ctx r dly)) (opt_maxRetryDelay cfg),
              stats_retry := stats_retry (requesting cfg ctx r dly) + 1,
              retryTimeout := NoTimer, xhr := Some 1,
              requestTimeout := Armed (Some (opt_timeout cfg))\<rparr>
           = requesting cfg ctx (r + 1) (backoff dly (opt_maxRetryDelay cfg))"
    by (simp add: requesting_def)
  have s: "run_responses (requesting cfg ctx r dly) (status # rest) =
           (case run_responses (requesting cfg ctx (r + 1) (backoff dly (opt_maxRetryDelay cfg))) rest of
              (e3, fx3) \<Rightarrow> (e3, RetryScheduled (cur_retryDelay (requesting cfg ctx r dly))
                                  # XhrSend (ctx_url ctx) # fx3))"
    unfolding n[symmetric]
    by (rule retry_step) (use assms in \<open>simp_all add: requesting_def\<close>)
  show ?thesis unfolding s by (simp add: requesting_def split: prod.splits)
qed

lemma requesting_error:
  assumes "opt_maxRetry cfg \<le> r \<or> (400 \<le> status \<and> status < 499)"
    and "\<not> (200 \<le> status \<and> status < 300)"
  shows "run_responses (requesting cfg ctx r dly) (status # rest) =
           ((requesting cfg ctx r dly)\<lparr>xhr := Some 4, requestTimeout := NoTimer\<rparr>, [OnError status])"
  by (rule error_step) (use assms in \<open>simp_all add: requesting_def\<close>)

text \<open>
  Claim C4, as the code has it.  A load with \<open>maxRetry = 3\<close> whose responses are all HTTP
  503 is retried exactly three times, with delays \<open>retryDelay\<close>,
  \<open>min(2 * retryDelay, maxRetryDelay)\<close> and the same step once more (non-decreasing when
  \<open>0 \<le> retryDelay \<le> maxRetryDelay\<close>), and then \<open>onError\<close> is invoked.  Every response
  with a status from 400 to 498 invokes \<open>onError\<close> at once and schedules no retry: as the
  first response of a load, after a retried 503, and in any state of a loaded engine
  whose request was not aborted, whatever the retries made and the budget left.
\<close>

theorem retry_backoff_then_error:
  "(opt_maxRetry cfg = 3 \<and> opt_retryDelay cfg = Some d \<and> opt_maxRetryDelay cfg = Some m \<longrightarrow>
      (\<exists>e1 fx. load ctx cfg new_NetworkEngine = (Inr (), e1, fx)
         \<and> snd (run_responses e1 (replicate (4 + n) 503)) =
             [RetryScheduled (Some d), XhrSend (ctx_url ctx),
              RetryScheduled (Some (min (2 * d) m)), XhrSend (ctx_url ctx),
              RetryScheduled (Some (min (2 * min (2 * d) m) m)), XhrSend (ctx_url ctx),
              OnError 503]
         \<and> retry_delays (snd (run_responses e1 (replicate (4 + n) 503))) =
             [Some d, Some (min (2 * d) m), Some (min (2 * min (2 * d) m) m)]
         \<and> (0 \<le> d \<and> d \<le> m \<longrightarrow> d \<le> min (2 * d) m \<and> min (2 * d) m \<le> min (2 * min (2 * d) m) m)
         \<and> (400 \<le> status \<and> status < 499 \<longrightarrow>
               snd (run_responses e1 (503 # status # rest)) =
                 [RetryScheduled (Some d), XhrSend (ctx_url ctx), OnError status])))
   \<and> (400 \<le> status \<and> status < 499 \<longrightarrow>
      (\<exists>e1 fx. load ctx' cfg' new_NetworkEngine = (Inr (), e1, fx)
         \<and> snd (run_responses e1 (status # rest)) = [OnError status]
         \<and> retryTimeout (fst (run_responses e1 (status # rest))) = NoTimer))
   \<and> (\<forall>e c. eng_config e = Some c \<and> \<not> stats_aborted e \<and> 400 \<le> status \<and> status < 499 \<longrightarrow>
         handleReadyStateChange 4 status e
           = (e\<lparr>xhr := Some 4, requestTimeout := NoTimer\<rparr>, [OnError status])
         \<and> retryTimeout (fst (handleReadyStateChange 4 status e)) = retryTimeout e
         \<and> stats_retry (fst (handleReadyStateChange 4 status e)) = stats_retry e
         \<and> retry_delays (snd (handleReadyStateChange 4 status e)) = [])
   \<and> (\<forall>c x r dly. 400 \<le> status \<and> status < 499 \<longrightarrow>
         run_responses (requesting c x r dly) (status # rest)
           = ((requesting c x r dly)\<lparr>xhr := Some 4, requestTimeout := NoTimer\<rparr>, [OnError status]))"
proof (intro conjI)
  show "opt_maxRetry cfg = 3 \<and> opt_retryDelay cfg = Some d \<and> opt_maxRetryDelay cfg = Some m \<longrightarrow>
      (\<exists>e1 fx. load ctx cfg new_NetworkEngine = (Inr (), e1, fx)
         \<and> snd (run_responses e1 (replicate (4 + n) 503)) =
             [RetryScheduled (Some d), XhrSend (ctx_url ctx),
              RetryScheduled (Some (min (2 * d) m)), XhrSend (ctx_url ctx),
              RetryScheduled (Some (min (2 * min (2 * d) m) m)), XhrSend (ctx_url ctx),
              OnError 503]
         \<and> retry_delays (snd (run_responses e1 (replicate (4 + n) 503))) =
             [Some d, Some (min (2 * d) m), Some (min (2 * min (2 * d) m) m)]
         \<and> (0 \<le> d \<and> d \<le> m \<longrightarrow> d \<le> min (2 * d) m \<and> min (2 * d) m \<le> min (2 * min (2 * d) m) m)
         \<and> (400 \<le> status \<and> status < 499 \<longrightarrow>
               snd (run_responses e1 (503 # status # rest)) =
                 [RetryScheduled (Some d), XhrSend (ctx_url ctx), OnError status]))"
  proof
    assume h: "opt_maxRetry cfg = 3 \<and> opt_retryDelay cfg = Some d \<and> opt_maxRetryDelay cfg = Some m"
    define d1 where "d1 = min (2 * d) m"
    define d2 where "d2 = min (2 * d1) m"
    have b0: "backoff (Some d) (opt_maxRetryDelay cfg) = Some d1"
      and b1: "backoff (Some d1) (opt_maxRetryDelay cfg) = Some d2"
      using h by (simp_all add: backoff_def d1_def d2_def)
    have n2: "\<not> (200 \<le> (503::int) \<and> (503::int) < 300)" and n4: "\<not> (400 \<le> (503::int) \<and> (503::int) < 499)"
      by simp_all
    have r0: "(0::int) < opt_maxRetry cfg" and r1: "(0::int) + 1 < opt_maxRetry cfg"
      and r2: "(0::int) + 1 + 1 < opt_maxRetry cfg"
      and r3: "opt_maxRetry cfg \<le> (0::int) + 1 + 1 + 1 \<or> (400 \<le> (503::int) \<and> (503::int) < 499)"
      using h by simp_all
    have tr: "snd (run_responses (requesting cfg ctx 0 (Some d)) (replicate (4 + n) 503)) =
               [RetryScheduled (Some d), XhrSend (ctx_url ctx),
                RetryScheduled (Some d1), XhrSend (ctx_url ctx),
                RetryScheduled (Some d2), XhrSend (ctx_url ctx),
                OnError 503]"
      unfolding replicate_4_plus
      by (simp only: requesting_retry[OF r0 n2 n4] requesting_retry[OF r1 n2 n4]
            requesting_retry[OF r2 n2 n4] requesting_error[OF r3 n2] b0 b1 snd_conv)
    have mono: "0 \<le> d \<and> d \<le> m \<longrightarrow> d \<le> d1 \<and> d1 \<le> d2"
      by (auto simp: d1_def d2_def min_def)
    have after: "400 \<le> status \<and> status < 499 \<longrightarrow>
               snd (run_responses (requesting cfg ctx 0 (Some d)) (503 # status # rest)) =
                 [RetryScheduled (Some d), XhrSend (ctx_url ctx), OnError status]"
    proof
      assume s: "400 \<le> status \<and> status < 499"
      have m2: "\<not> (200 \<le> status \<and> status < 300)" using s by simp
      have c: "opt_maxRetry cfg \<le> 0 + 1 \<or> (400 \<le> status \<and> status < 499)" using s by simp
      show "snd (run_responses (requesting cfg ctx 0 (Some d)) (503 # status # rest)) =
                 [RetryScheduled (Some d), XhrSend (ctx_url ctx), OnError status]"
        by (simp only: requesting_retry[OF r0 n2 n4] requesting_error[OF c m2] snd_conv)
    qed
    have ld: "load ctx cfg new_NetworkEngine = (Inr (), requesting cfg ctx 0 (Some d), [XhrSend (ctx_url ctx)])"
      using h by (simp add: load_requesting)
    show "\<exists>e1 fx. load ctx cfg new_NetworkEngine = (Inr (), e1, fx)
         \<and> snd (run_responses e1 (replicate (4 + n) 503)) =
             [RetryScheduled (Some d), XhrSend (ctx_url ctx),
              RetryScheduled (Some (min (2 * d) m)), XhrSend (ctx_url ctx),
              RetryScheduled (Some (min (2 * min (2 * d) m) m)), XhrSend (ctx_url ctx),
              OnError 503]
         \<and> retry_delays (snd (run_responses e1 (replicate (4 + n) 503))) =
             [Some d, Some (min (2 * d) m), Some (min (2 * min (2 * d) m) m)]
         \<and> (0 \<le> d \<and> d \<le> m \<longrightarrow> d \<le> min (2 * d) m \<and> min (2 * d) m \<le> min (2 * min (2 * d) m) m)
         \<and> (400 \<le> status \<and> status < 499 \<longrightarrow>
               snd (run_responses e1 (503 # status # rest)) =
                 [RetryScheduled (Some d), XhrSend (ctx_url ctx), OnError status])"
      using ld tr mono after unfolding d2_def d1_def by simp
  qed
next
  show "400 \<le> status \<and> status < 499 \<longrightarrow>
      (\<exists>e1 fx. load ctx' cfg' new_NetworkEngine = (Inr (), e1, fx)
         \<and> snd (run_responses e1 (status # rest)) = [OnError status]
         \<and> retryTimeout (fst (run_responses e1 (status # rest))) = NoTimer)"
  proof
    assume h: "400 \<le> status \<and> status < 499"
    have n2: "\<not> (200 \<le> status \<and> status < 300)" using h by simp
    have c: "opt_maxRetry cfg' \<le> 0 \<or> (400 \<le> status \<and> status < 499)" using h by simp
    have "run_responses (requesting cfg' ctx' 0 (opt_retryDelay cfg')) (status # rest) =
             ((requesting cfg' ctx' 0 (opt_retryDelay cfg'))\<lparr>xhr := Some 4, requestTimeout := NoTimer\<rparr>,
              [OnError status])"
      by (rule requesting_error[OF c n2])
    then show "\<exists>e1 fx. load ctx' cfg' new_NetworkEngine = (Inr (), e1, fx)
           \<and> snd (run_responses e1 (status # rest)) = [OnError status]
           \<and> retryTimeout (fst (run_responses e1 (status # rest))) = NoTimer"
      by (simp add: load_requesting requesting_def)
  qed
next
  show "\<forall>e c. eng_config e = Some c \<and> \<not> stats_aborted e \<and> 400 \<le> status \<and> status < 499 \<longrightarrow>
         handleReadyStateChange 4 status e
           = (e\<lparr>xhr := Some 4, requestTimeout := NoTimer\<rparr>, [OnError status])
         \<and> retryTimeout (fst (handleReadyStateChange 4 status e)) = retryTimeout e
         \<and> stats_retry (fst (handleReadyStateChange 4 status e)) = stats_retry e
         \<and> retry_delays (snd (handleReadyStateChange 4 status e)) = []"
  proof (intro allI impI)
    fix e :: NetworkEngine and c
    assume h: "eng_config e = Some c \<and> \<not> stats_aborted e \<and> 400 \<le> status \<and> status < 499"
    have a: "\<not> stats_aborted e" and b: "eng_config e = Some c"
      and o: "opt_maxRetry c \<le> stats_retry e \<or> (400 \<le> status \<and> status < 499)"
      and n2: "\<not> (200 \<le> status \<and> status < 300)"
      using h by simp_all
    have r: "handleReadyStateChange 4 status e
           = (e\<lparr>xhr := Some 4, requestTimeout := NoTimer\<rparr>, [OnError status])"
      by (rule handleReadyStateChange_error[OF a b o n2])
    show "handleReadyStateChange 4 status e
           = (e\<lparr>xhr := Some 4, requestTimeout := NoTimer\<rparr>, [OnError status])
         \<and> retryTimeout (fst (handleReadyStateChange 4 status e)) = retryTimeout e
         \<and> stats_retry (fst (handleReadyStateChange 4 status e)) = stats_retry e
         \<and> retry_delays (snd (handleReadyStateChange 4 status e)) = []"
      unfolding r by simp
  qed
next
  show "\<forall>c x r dly. 400 \<le> status \<and> status < 499 \<longrightarrow>
         run_responses (requesting c x r dly) (status # rest)
           = ((requesting c x r dly)\<lparr>xhr := Some 4, requestTimeout := NoTimer\<rparr>, [OnError status])"
  proof (intro allI impI)
    fix c :: NetworkEngineLoadOptions and x :: NetworkEngineContext and r :: int
      and dly :: "int option"
    assume h: "400 \<le> status \<and> status < 499"
    have n2: "\<not> (200 \<le> status \<and> status < 300)" using h by simp
    have o: "opt_maxRetry c \<le> r \<or> (400 \<le> status \<and> status < 499)" using h by simp
    show "run_responses (requesting c x r dly) (status # rest)
           = ((requesting c x r dly)\<lparr>xhr := Some 4, requestTimeout := NoTimer\<rparr>, [OnError status])"
      by (rule requesting_error[OF o n2])
  qed
qed

theorem retry_backoff_then_error_witness:
  "retry_delays (snd (run_responses (fst (snd (load ctx_example opts_example new_NetworkEngine)))
                        (replicate 4 503)))
     = [Some 1000, Some 2000, Some 4000]
   \<and> last (snd (run_responses (fst (snd (load ctx_example opts_example new_NetworkEngine)))
                        (replicate 4 503))) = OnError 503
   \<and> snd (run_responses (fst (snd (load ctx_example opts_example new_NetworkEngine))) [404])
     = [OnError 404]
   \<and> snd (run_responses (fst (snd (load ctx_example opts_example new_NetworkEngine))) [503, 404])
     = [RetryScheduled (Some 1000), XhrSend (ctx_url ctx_example), OnError 404]
   \<and> snd (handleReadyStateChange 4 404 (requesting opts_example ctx_example 2 (Some 4000)))
     = [OnError 404]"
proof -
  have c: "opt_maxRetry opts_example = 3 \<and> opt_retryDelay opts_example = Some 1000
             \<and> opt_maxRetryDelay opts_example = Some 64000"
    by (simp add: opts_example_def)
  have s: "400 \<le> (404::int) \<and> (404::int) < 499" by simp
  note t = retry_backoff_then_error[of opts_example 1000 64000 ctx_example 0 404 "[]" ctx_example
              opts_example]
  from t[THEN conjunct1, rule_format, OF c] obtain e1 fx where
    l: "load ctx_example opts_example new_NetworkEngine = (Inr (), e1, fx)"
    and tr: "snd (run_responses e1 (replicate (4 + 0) 503)) =
             [RetryScheduled (Some 1000), XhrSend (ctx_url ctx_example),
              RetryScheduled (Some (min (2 * 1000) 64000)), XhrSend (ctx_url ctx_example),
              RetryScheduled (Some (min (2 * min (2 * 1000) 64000) 64000)), XhrSend (ctx_url ctx_example),
              OnError 503]"
    and af: "400 \<le> (404::int) \<and> (404::int) < 499 \<longrightarrow>
               snd (run_responses e1 [503, 404]) =
                 [RetryScheduled (Some 1000), XhrSend (ctx_url ctx_example), OnError 404]"
    by blast
  from t[THEN conjunct2, THEN conjunct1, rule_format, OF s] l have
    e: "snd (run_responses e1 [404]) = [OnError 404]" by auto
  have g: "eng_config (requesting opts_example ctx_example 2 (Some 4000)) = Some opts_example
           \<and> \<not> stats_aborted (requesting opts_example ctx_example 2 (Some 4000))
           \<and> 400 \<le> (404::int) \<and> (404::int) < 499"
    by (simp add: requesting_def)
  from t[THEN conjunct2, THEN conjunct2, THEN conjunct1, rule_format, OF g]
  have h: "snd (handleReadyStateChange 4 404 (requesting opts_example ctx_example 2 (Some 4000)))
     = [OnError 404]" by simp
  have f: "fst (snd (load ctx_example opts_example new_NetworkEngine)) = e1" using l by simp
  have tr4: "snd (run_responses e1 (replicate 4 503)) =
             [RetryScheduled (Some 1000), XhrSend (ctx_url ctx_example),
              RetryScheduled (Some 2000), XhrSend (ctx_url ctx_example),
              RetryScheduled (Some 4000), XhrSend (ctx_url ctx_example),
              OnError 503]"
    using tr by simp
  have af': "snd (run_responses e1 [503, 404]) =
                 [RetryScheduled (Some 1000), XhrSend (ctx_url ctx_example), OnError 404]"
    using af by simp
  show ?thesis unfolding f tr4 e af' h by simp
qed

text \<open>
  The claim as stated fails.  With \<open>retryDelay = 1000\<close> above \<open>maxRetryDelay = 500\<close> the
  delays of the three retries are 1000, 500, 500, which is not non-decreasing; and a
  response with status 499, a status of the 4xx class, is retried.
\<close>

theorem retry_delays_not_monotone:
  "retry_delays (snd (run_responses (fst (snd (load ctx_example opts_low_cap new_NetworkEngine)))
                        (replicate 4 503)))
     = [Some 1000, Some 500, Some 500]
   \<and> snd (run_responses (fst (snd (load ctx_example opts_example new_NetworkEngine))) [499])
     = [RetryScheduled (Some 1000), XhrSend (ctx_url ctx_example)]"
proof -
  have l: "fst (snd (load ctx_example opts_low_cap new_NetworkEngine))
             = requesting opts_low_cap ctx_example 0 (Some 1000)"
    by (simp add: load_requesting opts_low_cap_def)
  have l': "fst (snd (load ctx_example opts_example new_NetworkEngine))
             = requesting opts_example ctx_example 0 (Some 1000)"
    by (simp add: load_requesting opts_example_def)
  have n2: "\<not> (200 \<le> (503::int) \<and> (503::int) < 300)" and n4: "\<not> (400 \<le> (503::int) \<and> (503::int) < 499)"
    by simp_all
  have r0: "(0::int) < opt_maxRetry opts_low_cap" and r1: "(0::int) + 1 < opt_maxRetry opts_low_cap"
    and r2: "(0::int) + 1 + 1 < opt_maxRetry opts_low_cap"
    and r3: "opt_maxRetry opts_low_cap \<le> (0::int) + 1 + 1 + 1 \<or> (400 \<le> (503::int) \<and> (503::int) < 499)"
    by (simp_all add: opts_low_cap_def)
  have b0: "backoff (Some 1000) (opt_maxRetryDelay opts_low_cap) = Some 500"
    and b1: "backoff (Some 500) (opt_maxRetryDelay opts_low_cap) = Some 500"
    by (simp_all add: backoff_def opts_low_cap_def)
  have r4: "replicate 4 (503::int) = [503, 503, 503, 503]" by (simp add: numeral_eq_Suc)
  have tr: "snd (run_responses (requesting opts_low_cap ctx_example 0 (Some 1000)) (replicate 4 503)) =
             [RetryScheduled (Some 1000), XhrSend (ctx_url ctx_example),
              RetryScheduled (Some 500), XhrSend (ctx_url ctx_example),
              RetryScheduled (Some 500), XhrSend (ctx_url ctx_example),
              OnError 503]"
    unfolding r4
    by (simp only: requesting_retry[OF r0 n2 n4] requesting_retry[OF r1 n2 n4]
          requesting_retry[OF r2 n2 n4] requesting_error[OF r3 n2] b0 b1 snd_conv)
  have q0: "(0::int) < opt_maxRetry opts_example" by (simp add: opts_example_def)
  have m2: "\<not> (200 \<le> (499::int) \<and> (499::int) < 300)" and m4: "\<not> (400 \<le> (499::int) \<and> (499::int) < 499)"
    by simp_all
  have s499: "snd (run_responses (requesting opts_example ctx_example 0 (Some 1000)) [499])
      = [RetryScheduled (Some 1000), XhrSend (ctx_url ctx_example)]"
    by (simp only: requesting_retry[OF q0 m2 m4] run_responses.simps(1) snd_conv)
  show ?thesis unfolding l l' tr s499 by simp
qed

section \<open>Playlist loads by kind of request\<close>

lemma PlaylistLoadingHandler_load_started:
  assumes "\<not> (case pl_loaders h (ctx_type ctx) of
                None \<Rightarrow> False
              | Some l \<Rightarrow> (case eng_context l of None \<Rightarrow> False | Some lc \<Rightarrow> ctx_url lc = Some url))"
  shows "PlaylistLoadingHandler_load cfg url ctx h =
     (Inr True,
      h\<lparr>pl_retired := pl_retired h @ (case pl_loaders h (ctx_type ctx) of None \<Rightarrow> [] | Some l \<Rightarrow> [abort l]),
        pl_loaders := (pl_loaders h)(ctx_type ctx \<mapsto>
           requesting (loaderConfig cfg (ctx_type ctx))
             (ctx\<lparr>ctx_url := Some url,
                  ctx_responseType := Some (case ctx_responseType ctx of None \<Rightarrow> [] | Some r \<Rightarrow> r)\<rparr>)
             0 (opt_retryDelay (loaderConfig cfg (ctx_type ctx))))\<rparr>,
      (case pl_loaders h (ctx_type ctx) of None \<Rightarrow> [] | Some l \<Rightarrow> [LoaderAbort])
        @ [Net (XhrSend (Some url))])"
proof (cases "pl_loaders h (ctx_type ctx)")
  case None
  then show ?thesis
    by (simp add: PlaylistLoadingHandler_load_def load_requesting Let_def)
next
  case (Some l)
  with assms have ns: "(case eng_context l of None \<Rightarrow> False | Some lc \<Rightarrow> ctx_url lc = Some url) = False"
    by simp
  show ?thesis
    using Some by (simp add: PlaylistLoadingHandler_load_def load_requesting Let_def ns)
qed

lemma abort_keeps:
  "eng_context (abort e) = eng_context e" "eng_config (abort e) = eng_config e"
  by (simp_all add: abort_def Let_def split: option.splits)


lemma handleNetworkError_fatal:
  assumes "handleNetworkError ctx timeout h = (Inr (), h', acts)"
  shows "\<exists>det u. acts = [LoaderAbort, Trigger (EV_ERROR det (ctx_type ctx = MANIFEST) u)]"
proof -
  have f: "snd (networkErrorDetails (ctx_type ctx) timeout) = (ctx_type ctx = MANIFEST)"
    by (cases "ctx_type ctx") (simp_all add: networkErrorDetails_def)
  obtain det fatal where nd: "networkErrorDetails (ctx_type ctx) timeout = (det, fatal)"
    by (cases "networkErrorDetails (ctx_type ctx) timeout")
  with f have fatal: "fatal = (ctx_type ctx = MANIFEST)" by simp
  show ?thesis
    using assms nd fatal
    by (auto simp: handleNetworkError_def Let_def split: option.splits)
qed

text \<open>
  Claim C7, as the code has it.  Manifest loads use \<open>manifestLoadingMaxRetry\<close> and their
  network failures are reported with \<open>fatal = true\<close>; level loads have the engine's retry
  disabled (\<open>maxRetry = 0\<close>); audio-track and subtitle-track loads use the level retry
  budget \<open>levelLoadingMaxRetry\<close>; the network failures of every kind of load other than
  the manifest are reported with \<open>fatal = false\<close>.
\<close>

theorem playlist_retry_budget_and_fatality:
  "opt_maxRetry (loaderConfig cfg MANIFEST) = manifestLoadingMaxRetry cfg
   \<and> opt_maxRetry (loaderConfig cfg LEVEL) = 0
   \<and> opt_maxRetry (loaderConfig cfg AUDIO_TRACK) = levelLoadingMaxRetry cfg
   \<and> opt_maxRetry (loaderConfig cfg SUBTITLE_TRACK) = levelLoadingMaxRetry cfg
   \<and> (\<forall>h' acts. PlaylistLoadingHandler_load cfg url ctx h = (Inr True, h', acts) \<longrightarrow>
         (\<exists>l. pl_loaders h' (ctx_type ctx) = Some l
              \<and> eng_config l = Some (loaderConfig cfg (ctx_type ctx))))
   \<and> (\<forall>h' acts. handleNetworkError ctx timeout h = (Inr (), h', acts) \<longrightarrow>
         (\<exists>det u. acts = [LoaderAbort, Trigger (EV_ERROR det (ctx_type ctx = MANIFEST) u)]))"
proof (intro conjI allI impI)
  show "opt_maxRetry (loaderConfig cfg MANIFEST) = manifestLoadingMaxRetry cfg"
    by (simp add: loaderConfig_def)
  show "opt_maxRetry (loaderConfig cfg LEVEL) = 0" by (simp add: loaderConfig_def)
  show "opt_maxRetry (loaderConfig cfg AUDIO_TRACK) = levelLoadingMaxRetry cfg"
    by (simp add: loaderConfig_def)
  show "opt_maxRetry (loaderConfig cfg SUBTITLE_TRACK) = levelLoadingMaxRetry cfg"
    by (simp add: loaderConfig_def)
next
  fix h' acts
  assume h: "PlaylistLoadingHandler_load cfg url ctx h = (Inr True, h', acts)"
  have ns: "\<not> (case pl_loaders h (ctx_type ctx) of
                None \<Rightarrow> False
              | Some l \<Rightarrow> (case eng_context l of None \<Rightarrow> False | Some lc \<Rightarrow> ctx_url lc = Some url))"
  proof
    assume "case pl_loaders h (ctx_type ctx) of
                None \<Rightarrow> False
              | Some l \<Rightarrow> (case eng_context l of None \<Rightarrow> False | Some lc \<Rightarrow> ctx_url lc = Some url)"
    then have "PlaylistLoadingHandler_load cfg url ctx h = (Inr False, h, [])"
      by (simp add: PlaylistLoadingHandler_load_def Let_def)
    with h show False by simp
  qed
  from h show "\<exists>l. pl_loaders h' (ctx_type ctx) = Some l
              \<and> eng_config l = Some (loaderConfig cfg (ctx_type ctx))"
    unfolding PlaylistLoadingHandler_load_started[OF ns]
    by (auto simp: requesting_def)
next
  fix h' acts
  assume "handleNetworkError ctx timeout h = (Inr (), h', acts)"
  then show "\<exists>det u. acts = [LoaderAbort, Trigger (EV_ERROR det (ctx_type ctx = MANIFEST) u)]"
    by (rule handleNetworkError_fatal)
qed

theorem playlist_retry_budget_and_fatality_witness:
  "(\<exists>l. pl_loaders (fst (snd (PlaylistLoadingHandler_load hls_config_example ''http://host/master.m3u8''
                                 (playlist_ctx MANIFEST) new_PlaylistLoadingHandler))) MANIFEST = Some l
        \<and> eng_config l = Some (loaderConfig hls_config_example MANIFEST))
   \<and> opt_maxRetry (loaderConfig hls_config_example MANIFEST) = 1
   \<and> (\<exists>det u. snd (snd (handleNetworkError (playlist_ctx MANIFEST) False
                  (fst (snd (PlaylistLoadingHandler_load hls_config_example ''http://host/master.m3u8''
                                 (playlist_ctx MANIFEST) new_PlaylistLoadingHandler)))))
                 = [LoaderAbort, Trigger (EV_ERROR det True u)])"
proof -
  define h1 where "h1 = fst (snd (PlaylistLoadingHandler_load hls_config_example ''http://host/master.m3u8''
                                 (playlist_ctx MANIFEST) new_PlaylistLoadingHandler))"
  have ns: "\<not> (case pl_loaders new_PlaylistLoadingHandler (ctx_type (playlist_ctx MANIFEST)) of
                None \<Rightarrow> False
              | Some l \<Rightarrow> (case eng_context l of None \<Rightarrow> False
                           | Some lc \<Rightarrow> ctx_url lc = Some ''http://host/master.m3u8''))"
    by (simp add: new_PlaylistLoadingHandler_def)
  obtain acts where l: "PlaylistLoadingHandler_load hls_config_example ''http://host/master.m3u8''
       (playlist_ctx MANIFEST) new_PlaylistLoadingHandler = (Inr True, h1, acts)"
    unfolding h1_def PlaylistLoadingHandler_load_started[OF ns] by simp
  note t = playlist_retry_budget_and_fatality[of hls_config_example "''http://host/master.m3u8''"
             "playlist_ctx MANIFEST" new_PlaylistLoadingHandler False]
  have ct: "ctx_type (playlist_ctx MANIFEST) = MANIFEST" by (simp add: playlist_ctx_def)
  from t l ct have a: "\<exists>l. pl_loaders h1 MANIFEST = Some l
        \<and> eng_config l = Some (loaderConfig hls_config_example MANIFEST)"
    by metis
  from t have b: "opt_maxRetry (loaderConfig hls_config_example MANIFEST) = 1"
    by (simp add: hls_config_example_def)
  note t2 = playlist_retry_budget_and_fatality[of hls_config_example "''http://host/master.m3u8''"
             "playlist_ctx MANIFEST" h1 False]
  have reg: "pl_loaders h1 MANIFEST \<noteq> None" using a by auto
  obtain r h2 acts2 where e: "handleNetworkError (playlist_ctx MANIFEST) False h1 = (r, h2, acts2)"
    by (metis prod_cases3)
  have r: "r = Inr ()"
    using e l unfolding PlaylistLoadingHandler_load_started[OF ns]
    by (auto simp: handleNetworkError_def Let_def requesting_def playlist_ctx_def abort_keeps
          new_PlaylistLoadingHandler_def split: prod.splits option.splits)
  from t2 e r ct have "\<exists>det u. acts2 = [LoaderAbort, Trigger (EV_ERROR det True u)]"
    by (metis (full_types))
  with a b e show ?thesis unfolding h1_def[symmetric] by simp
qed

text \<open>
  The claim as stated fails for alternate tracks: an audio-track playlist load hands the
  engine the level retry budget, 4 in this configuration, not 0.
\<close>

theorem audio_track_load_retries:
  "fst (PlaylistLoadingHandler_load hls_config_example ''http://host/audio.m3u8''
          (playlist_ctx AUDIO_TRACK) new_PlaylistLoadingHandler) = Inr True
   \<and> map_option eng_config
        (pl_loaders (fst (snd (PlaylistLoadingHandler_load hls_config_example ''http://host/audio.m3u8''
                                 (playlist_ctx AUDIO_TRACK) new_PlaylistLoadingHandler))) AUDIO_TRACK)
      = Some (Some (loaderConfig hls_config_example AUDIO_TRACK))
   \<and> opt_maxRetry (loaderConfig hls_config_example AUDIO_TRACK) = 4"
proof -
  have ns: "\<not> (case pl_loaders new_PlaylistLoadingHandler (ctx_type (playlist_ctx AUDIO_TRACK)) of
                None \<Rightarrow> False
              | Some l \<Rightarrow> (case eng_context l of None \<Rightarrow> False
                           | Some lc \<Rightarrow> ctx_url lc = Some ''http://host/audio.m3u8''))"
    by (simp add: new_PlaylistLoadingHandler_def)
  show ?thesis
    unfolding PlaylistLoadingHandler_load_started[OF ns]
    by (simp add: playlist_ctx_def requesting_def loaderConfig_def hls_config_example_def)
qed

section \<open>One request in flight per kind of playlist\<close>







text \<open>
  The claim as stated fails for an engine whose load is still in progress but between
  two attempts: after a 503 the engine waits for its retry timer and holds no request
  object, so a second \<open>load\<close> does not throw and sends a request, with the retry timer of
  the first load still armed.
\<close>

theorem load_accepted_while_waiting_for_retry:
  "in_flight (fst (handleReadyStateChange 4 503 (requesting opts_example ctx_example 0 (Some 1000))))
   \<and> snd (handleReadyStateChange 4 503 (requesting opts_example ctx_example 0 (Some 1000)))
       = [RetryScheduled (Some 1000)]
   \<and> fst (load ctx_example opts_example
            (fst (handleReadyStateChange 4 503 (requesting opts_example ctx_example 0 (Some 1000)))))
       = Inr ()
   \<and> snd (snd (load ctx_example opts_example
            (fst (handleReadyStateChange 4 503 (requesting opts_example ctx_example 0 (Some 1000))))))
       = [XhrSend (Some ''http://host/master.m3u8'')]
   \<and> retryTimeout (fst (snd (load ctx_example opts_example
            (fst (handleReadyStateChange 4 503 (requesting opts_example ctx_example 0 (Some 1000)))))))
       = Armed (Some 1000)"
proof -
  have a: "\<not> stats_aborted (requesting opts_example ctx_example 0 (Some 1000))"
    and b: "eng_config (requesting opts_example ctx_example 0 (Some 1000)) = Some opts_example"
    and c: "stats_retry (requesting opts_example ctx_example 0 (Some 1000)) < opt_maxRetry opts_example"
    by (simp_all add: requesting_def opts_example_def)
  have n2: "\<not> (200 \<le> (503::int) \<and> (503::int) < 300)" and n4: "\<not> (400 \<le> (503::int) \<and> (503::int) < 499)"
    by simp_all
  show ?thesis
    unfolding handleReadyStateChange_retry[OF a b c n2 n4]
    by (simp add: in_flight_def load_def execRequest_def requesting_def ctx_example_def)
qed

section \<open>Decryption data and key requests\<close>

lemma decryptdata_cached:
  "decryptdata_cache f = Some r \<Longrightarrow> decryptdata build f hp = (Some r, f, hp)"
  by (simp add: decryptdata_def)

lemma decryptdata_fills:
  assumes "decryptdata build f hp = (Some r, f', hp')"
  shows "decryptdata_cache f' = Some r"
proof (cases "decryptdata_cache f")
  case None
  obtain d h where c: "createDecryptDataFromLevelkey build (levelkey f) (sn f) hp = (d, h)"
    by (cases "createDecryptDataFromLevelkey build (levelkey f) (sn f) hp")
  show ?thesis using assms None c by (auto simp: decryptdata_def)
next
  case (Some a)
  then show ?thesis using assms by (auto simp: decryptdata_def)
qed

lemma decryptdata_again:
  assumes "decryptdata build f hp = (Some r, f', hp')"
  shows "decryptdata build f' h = (Some r, f', h)"
  by (rule decryptdata_cached) (rule decryptdata_fills[OF assms])

lemma createDecryptDataFromLevelkey_cases:
  "createDecryptDataFromLevelkey build lk s hp = (lk, hp)
   \<or> (\<exists>k. createDecryptDataFromLevelkey build lk s hp
            = (Some (heap_next hp),
               hp\<lparr>heap_keys := (heap_keys hp)(heap_next hp := k), heap_next := heap_next hp + 1\<rparr>))"
  by (cases lk) (auto simp: createDecryptDataFromLevelkey_def alloc_LevelKey_def Let_def)

lemma decryptdata_allocated:
  assumes "decryptdata build g hp = (Some r, g', hp')" and "r < heap_next hp"
  shows "hp' = hp"
proof (cases "decryptdata_cache g")
  case None
  from createDecryptDataFromLevelkey_cases[of build "levelkey g" "sn g" hp]
  show ?thesis
  proof
    assume "createDecryptDataFromLevelkey build (levelkey g) (sn g) hp = (levelkey g, hp)"
    then show ?thesis using assms None by (simp add: decryptdata_def)
  next
    assume "\<exists>k. createDecryptDataFromLevelkey build (levelkey g) (sn g) hp
            = (Some (heap_next hp),
               hp\<lparr>heap_keys := (heap_keys hp)(heap_next hp := k), heap_next := heap_next hp + 1\<rparr>)"
    then have "r = heap_next hp" using assms None by (auto simp: decryptdata_def)
    with assms(2) show ?thesis by simp
  qed
next
  case (Some a)
  then show ?thesis using assms by (simp add: decryptdata_def)
qed

lemma encrypted_of_key:
  assumes "decryptdata build g hp = (Some r, g', hp)" and "key (heap_keys hp r) = Some data"
  shows "\<not> fst (encrypted build g hp)"
  using assms by (simp add: encrypted_def)

lemma handleSuccess_cases:
  assumes "KeyLoadingHandler_handleSuccess build data f kl hp = (Inr (), kl', f', hp', acts)"
  shows "\<exists>r f1 hp1. decryptdata build f hp = (Some r, f1, hp1)
           \<and> f' = f1\<lparr>loader_attached := False\<rparr> \<and> hp' = set_key r data hp1
           \<and> keyData kl' = Some data \<and> keyUrl kl' = keyUrl kl
           \<and> acts = [Trigger (EV_KEY_LOADED (getKey f))]"
proof -
  obtain dd f1 hp1 where g: "decryptdata build f hp = (dd, f1, hp1)"
    by (cases "decryptdata build f hp") auto
  show ?thesis
    using assms g by (cases dd) (auto simp: KeyLoadingHandler_handleSuccess_def)
qed

lemma set_key_sel:
  "heap_keys (set_key r data hp) r = (heap_keys hp r)\<lparr>key := Some data\<rparr>"
  "heap_next (set_key r data hp) = heap_next hp"
  by (simp_all add: set_key_def)

lemma onKeyLoading_cached:
  assumes "decryptdata build f hp = (Some r, f1, hp1)"
    and "LevelKey_uri build (heap_keys hp1 r) = keyUrl kl" and "keyData kl = Some kd"
  shows "onKeyLoading build cfg f kl hp =
           (Inr (), kl, f1, set_key r kd hp1, [Trigger (EV_KEY_LOADED (getKey f))])"
  using assms by (simp add: onKeyLoading_def Let_def)

lemma onKeyLoading_fetch:
  assumes "decryptdata build f hp = (Some r, f1, hp1)"
    and "LevelKey_uri build (heap_keys hp1 r) \<noteq> keyUrl kl \<or> keyData kl = None"
  shows "\<exists>kl' l'. onKeyLoading build cfg f kl hp =
           (Inr (), kl', f1\<lparr>loader_attached := True\<rparr>, hp1,
            (case kl_loaders kl (ftype f) of None \<Rightarrow> [] | Some l \<Rightarrow> [LoaderAbort])
              @ [Net (XhrSend (LevelKey_uri build (heap_keys hp1 r)))])
         \<and> kl_loaders kl' (ftype f) = Some l'
         \<and> in_flight l'
         \<and> map_option opt_maxRetry (eng_config l') = Some 0
         \<and> map_option ctx_url (eng_context l') = Some (LevelKey_uri build (heap_keys hp1 r))
         \<and> kl_retired kl' = kl_retired kl
               @ (case kl_loaders kl (ftype f) of None \<Rightarrow> [] | Some l \<Rightarrow> [abort l])
         \<and> (\<forall>t. t \<noteq> ftype f \<longrightarrow> kl_loaders kl' t = kl_loaders kl t)
         \<and> keyUrl kl' = LevelKey_uri build (heap_keys hp1 r) \<and> keyData kl' = None"
proof (cases "LevelKey_uri build (heap_keys hp1 r) = keyUrl kl")
  case True
  with assms(2) have n: "keyData kl = None" by simp
  show ?thesis
    by (cases "kl_loaders kl (ftype f)")
       (simp_all add: onKeyLoading_def Let_def assms(1) True n load_requesting requesting_def
          in_flight_def)
next
  case False
  show ?thesis
    by (cases "kl_loaders kl (ftype f)")
       (simp_all add: onKeyLoading_def Let_def assms(1) False load_requesting requesting_def
          in_flight_def)
qed

lemma fetches_append: "fetches (xs @ ys) = fetches xs @ fetches ys"
  by (induction xs rule: fetches.induct) simp_all

lemma onKeyLoading_no_fetch:
  assumes "onKeyLoading build cfg f kl hp = (Inr (), kl', f', hp', acts)" and "fetches acts = []"
    and "keyData kl = Some kd"
  shows "\<exists>r f1 hp1. decryptdata build f hp = (Some r, f1, hp1)
           \<and> LevelKey_uri build (heap_keys hp1 r) = keyUrl kl
           \<and> kl' = kl \<and> f' = f1 \<and> hp' = set_key r kd hp1
           \<and> acts = [Trigger (EV_KEY_LOADED (getKey f))]"
proof -
  obtain dd f1 hp1 where g: "decryptdata build f hp = (dd, f1, hp1)"
    by (cases "decryptdata build f hp") auto
  from assms(1) g obtain r where d: "dd = Some r"
    by (cases dd) (auto simp: onKeyLoading_def)
  have u: "LevelKey_uri build (heap_keys hp1 r) = keyUrl kl"
  proof (rule ccontr)
    assume n: "LevelKey_uri build (heap_keys hp1 r) \<noteq> keyUrl kl"
    then have "LevelKey_uri build (heap_keys hp1 r) \<noteq> keyUrl kl \<or> keyData kl = None" by simp
    from onKeyLoading_fetch[OF g[unfolded d] this, of cfg] assms(1)
    have "fetches acts \<noteq> []" by (auto simp: fetches_append)
    with assms(2) show False by simp
  qed
  from onKeyLoading_cached[OF g[unfolded d] u assms(3), of cfg] assms(1) g d u
  show ?thesis by simp
qed


section \<open>The \<open>encrypted\<close> getter\<close>

text \<open>
  Claim C10.  \<open>encrypted\<close> is true exactly when the fragment's decryption data has a
  non-null URI and its key bytes are still null.  A successful key load attaches the
  loaded bytes to the fragment's decryption-data object, and a request served from the
  key loader's cache attaches the cached bytes; the object is otherwise unchanged, and
  from then on the fragment reports \<open>encrypted = false\<close>, and so does every other
  fragment whose decryption data is that same (allocated) object.
\<close>

theorem encrypted_until_key_attached:
  "(fst (encrypted build f hp) \<longleftrightarrow>
      (\<exists>r f' hp'. decryptdata build f hp = (Some r, f', hp')
          \<and> LevelKey_uri build (heap_keys hp' r) \<noteq> None \<and> key (heap_keys hp' r) = None))
   \<and> (\<forall>data kl kl' f' hp' acts.
         KeyLoadingHandler_handleSuccess build data f kl hp = (Inr (), kl', f', hp', acts)
           \<longrightarrow> (\<exists>r f1 hp1. decryptdata build f hp = (Some r, f1, hp1)
                   \<and> decryptdata build f' hp' = (Some r, f', hp')
                   \<and> heap_keys hp' r = (heap_keys hp1 r)\<lparr>key := Some data\<rparr>
                   \<and> key (heap_keys hp' r) = Some data
                   \<and> (\<forall>g. r < heap_next hp' \<and> fst (decryptdata build g hp') = Some r
                          \<longrightarrow> \<not> fst (encrypted build g hp')))
               \<and> \<not> fst (encrypted build f' hp') \<and> keyData kl' = Some data)
   \<and> (\<forall>cfg kl kl' f' hp' acts kd.
         onKeyLoading build cfg f kl hp = (Inr (), kl', f', hp', acts) \<and> fetches acts = []
           \<and> keyData kl = Some kd
           \<longrightarrow> (\<exists>r f1 hp1. decryptdata build f hp = (Some r, f1, hp1)
                   \<and> decryptdata build f' hp' = (Some r, f', hp')
                   \<and> heap_keys hp' r = (heap_keys hp1 r)\<lparr>key := Some kd\<rparr>
                   \<and> key (heap_keys hp' r) = Some kd)
               \<and> \<not> fst (encrypted build f' hp'))"
proof (intro conjI)
  show "fst (encrypted build f hp) \<longleftrightarrow>
      (\<exists>r f' hp'. decryptdata build f hp = (Some r, f', hp')
          \<and> LevelKey_uri build (heap_keys hp' r) \<noteq> None \<and> key (heap_keys hp' r) = None)"
  proof -
    obtain dd f1 hp1 where g: "decryptdata build f hp = (dd, f1, hp1)"
      by (cases "decryptdata build f hp") auto
    show ?thesis by (cases dd) (simp_all add: encrypted_def g)
  qed
next
  show "\<forall>data kl kl' f' hp' acts.
         KeyLoadingHandler_handleSuccess build data f kl hp = (Inr (), kl', f', hp', acts)
           \<longrightarrow> (\<exists>r f1 hp1. decryptdata build f hp = (Some r, f1, hp1)
                   \<and> decryptdata build f' hp' = (Some r, f', hp')
                   \<and> heap_keys hp' r = (heap_keys hp1 r)\<lparr>key := Some data\<rparr>
                   \<and> key (heap_keys hp' r) = Some data
                   \<and> (\<forall>g. r < heap_next hp' \<and> fst (decryptdata build g hp') = Some r
                          \<longrightarrow> \<not> fst (encrypted build g hp')))
               \<and> \<not> fst (encrypted build f' hp') \<and> keyData kl' = Some data"
  proof (intro allI impI)
    fix data kl kl' f' hp' acts
    assume h: "KeyLoadingHandler_handleSuccess build data f kl hp = (Inr (), kl', f', hp', acts)"
    from handleSuccess_cases[OF h] obtain r f1 hp1 where
      dd: "decryptdata build f hp = (Some r, f1, hp1)"
      and f': "f' = f1\<lparr>loader_attached := False\<rparr>" and hp': "hp' = set_key r data hp1"
      and kd: "keyData kl' = Some data"
      by blast
    have c: "decryptdata_cache f' = Some r" using decryptdata_fills[OF dd] f' by simp
    have again: "decryptdata build f' hp' = (Some r, f', hp')" by (rule decryptdata_cached[OF c])
    have obj: "heap_keys hp' r = (heap_keys hp1 r)\<lparr>key := Some data\<rparr>"
      by (simp add: hp' set_key_sel)
    then have k: "key (heap_keys hp' r) = Some data" by simp
    have ne: "\<not> fst (encrypted build f' hp')" by (rule encrypted_of_key[OF again k])
    have share: "\<forall>g. r < heap_next hp' \<and> fst (decryptdata build g hp') = Some r
                          \<longrightarrow> \<not> fst (encrypted build g hp')"
    proof (intro allI impI)
      fix g
      assume a: "r < heap_next hp' \<and> fst (decryptdata build g hp') = Some r"
      obtain g' h' where gd: "decryptdata build g hp' = (Some r, g', h')"
        using a by (cases "decryptdata build g hp'") auto
      have "h' = hp'" using decryptdata_allocated[OF gd] a by simp
      with gd have "decryptdata build g hp' = (Some r, g', hp')" by simp
      then show "\<not> fst (encrypted build g hp')" using k by (rule encrypted_of_key)
    qed
    show "(\<exists>r f1 hp1. decryptdata build f hp = (Some r, f1, hp1)
                   \<and> decryptdata build f' hp' = (Some r, f', hp')
                   \<and> heap_keys hp' r = (heap_keys hp1 r)\<lparr>key := Some data\<rparr>
                   \<and> key (heap_keys hp' r) = Some data
                   \<and> (\<forall>g. r < heap_next hp' \<and> fst (decryptdata build g hp') = Some r
                          \<longrightarrow> \<not> fst (encrypted build g hp')))
               \<and> \<not> fst (encrypted build f' hp') \<and> keyData kl' = Some data"
      using dd again obj k share ne kd by blast
  qed
next
  show "\<forall>cfg kl kl' f' hp' acts kd.
         onKeyLoading build cfg f kl hp = (Inr (), kl', f', hp', acts) \<and> fetches acts = []
           \<and> keyData kl = Some kd
           \<longrightarrow> (\<exists>r f1 hp1. decryptdata build f hp = (Some r, f1, hp1)
                   \<and> decryptdata build f' hp' = (Some r, f', hp')
                   \<and> heap_keys hp' r = (heap_keys hp1 r)\<lparr>key := Some kd\<rparr>
                   \<and> key (heap_keys hp' r) = Some kd)
               \<and> \<not> fst (encrypted build f' hp')"
  proof (intro allI impI)
    fix cfg kl kl' f' hp' acts kd
    assume h: "onKeyLoading build cfg f kl hp = (Inr (), kl', f', hp', acts) \<and> fetches acts = []
           \<and> keyData kl = Some kd"
    then have h1: "onKeyLoading build cfg f kl hp = (Inr (), kl', f', hp', acts)"
      and h2: "fetches acts = []" and h3: "keyData kl = Some kd" by simp_all
    from onKeyLoading_no_fetch[OF h1 h2 h3] obtain r f1 hp1 where
      dd: "decryptdata build f hp = (Some r, f1, hp1)"
      and f': "f' = f1" and hp': "hp' = set_key r kd hp1"
      by blast
    have c: "decryptdata_cache f' = Some r" using decryptdata_fills[OF dd] f' by simp
    have again: "decryptdata build f' hp' = (Some r, f', hp')" by (rule decryptdata_cached[OF c])
    have obj: "heap_keys hp' r = (heap_keys hp1 r)\<lparr>key := Some kd\<rparr>"
      by (simp add: hp' set_key_sel)
    then have k: "key (heap_keys hp' r) = Some kd" by simp
    have ne: "\<not> fst (encrypted build f' hp')" by (rule encrypted_of_key[OF again k])
    show "(\<exists>r f1 hp1. decryptdata build f hp = (Some r, f1, hp1)
                   \<and> decryptdata build f' hp' = (Some r, f', hp')
                   \<and> heap_keys hp' r = (heap_keys hp1 r)\<lparr>key := Some kd\<rparr>
                   \<and> key (heap_keys hp' r) = Some kd)
               \<and> \<not> fst (encrypted build f' hp')"
      using dd again obj k ne by blast
  qed
qed

lemma example_decryptdata:
  "\<exists>f' hp'. decryptdata build_example frag_example heap_example = (Some 3, f', hp')
      \<and> LevelKey_uri build_example (heap_keys hp' 3) = Some ''http://host/key.bin''
      \<and> key (heap_keys hp' 3) = None \<and> heap_next hp' = 4"
  "\<exists>f' hp'. decryptdata build_example frag_example2 heap_example = (Some 3, f', hp')
      \<and> LevelKey_uri build_example (heap_keys hp' 3) = Some ''http://host/key.bin''
      \<and> key (heap_keys hp' 3) = None \<and> heap_next hp' = 4"
  by (simp_all add: decryptdata_def createDecryptDataFromLevelkey_def alloc_LevelKey_def
        frag_example_def frag_example2_def example_keys truthy_str_def Let_def
        new_LevelKey_def LevelKey_uri_def key_example_def build_example_def)

lemma example_decryptdata_shared:
  "decryptdata build_example frag_iv1 heap_example
     = (Some 2, frag_iv1\<lparr>decryptdata_cache := Some 2\<rparr>, heap_example)"
  "decryptdata build_example frag_iv2 hp
     = (if iv (heap_keys hp 2) = None \<and> truthy_str (key_method (heap_keys hp 2))
           \<and> truthy_str (LevelKey_uri build_example (heap_keys hp 2))
        then decryptdata build_example frag_iv2 hp
        else (Some 2, frag_iv2\<lparr>decryptdata_cache := Some 2\<rparr>, hp))"
  by (auto simp add: decryptdata_def createDecryptDataFromLevelkey_def
        frag_iv1_def frag_iv2_def frag_example_def example_keys key_with_iv_def Let_def)

theorem encrypted_until_key_attached_witness:
  "fst (encrypted build_example frag_example heap_example)
   \<and> fst key_success_example = Inr ()
   \<and> key (heap_keys (fst (snd (snd (snd key_success_example)))) 3) = Some [1, 2, 3]
   \<and> \<not> fst (encrypted build_example (fst (snd (snd key_success_example)))
                (fst (snd (snd (snd key_success_example)))))
   \<and> fst (encrypted build_example frag_iv2 heap_example)
   \<and> fst key_success_shared = Inr ()
   \<and> \<not> fst (encrypted build_example frag_iv2 (fst (snd (snd (snd key_success_shared)))))"
proof -
  note t = encrypted_until_key_attached[of build_example frag_example heap_example]
  note s = encrypted_until_key_attached[of build_example frag_iv1 heap_example]
  note u = encrypted_until_key_attached[of build_example frag_iv2 heap_example]
  from example_decryptdata(1) obtain fa ha where
    dd: "decryptdata build_example frag_example heap_example = (Some 3, fa, ha)"
    and uri: "LevelKey_uri build_example (heap_keys ha 3) = Some ''http://host/key.bin''"
    and nokey: "key (heap_keys ha 3) = None"
    by blast
  have e: "fst (encrypted build_example frag_example heap_example)"
    using t[THEN conjunct1] dd uri nokey by simp
  obtain kl' f' hp' acts where
    hs: "key_success_example = (Inr (), kl', f', hp', acts)"
    unfolding key_success_example_def by (simp add: KeyLoadingHandler_handleSuccess_def dd)
  from t[THEN conjunct2, THEN conjunct1, rule_format, OF hs[unfolded key_success_example_def]]
  obtain r f1 hp1 where
    a: "decryptdata build_example frag_example heap_example = (Some r, f1, hp1)"
    and k: "key (heap_keys hp' r) = Some [1, 2, 3]"
    and ne: "\<not> fst (encrypted build_example f' hp')"
    by blast
  have r3: "r = 3" using a dd by simp
  have d2: "decryptdata build_example frag_iv2 heap_example
              = (Some 2, frag_iv2\<lparr>decryptdata_cache := Some 2\<rparr>, heap_example)"
    by (subst example_decryptdata_shared(2)) (simp add: example_keys key_with_iv_def)
  have e2: "fst (encrypted build_example frag_iv2 heap_example)"
    using u[THEN conjunct1] d2 by (simp add: example_keys example_key_uris) (simp add: key_with_iv_def)
  obtain kl2 f2 hp2 acts2 where
    hs2: "key_success_shared = (Inr (), kl2, f2, hp2, acts2)"
    unfolding key_success_shared_def
    by (simp add: KeyLoadingHandler_handleSuccess_def example_decryptdata_shared(1))
  have hp2: "hp2 = set_key 2 [1, 2, 3] heap_example"
    using hs2 unfolding key_success_shared_def
    by (simp add: KeyLoadingHandler_handleSuccess_def example_decryptdata_shared(1))
  from s[THEN conjunct2, THEN conjunct1, rule_format, OF hs2[unfolded key_success_shared_def]]
  obtain r' where
    a': "fst (decryptdata build_example frag_iv1 heap_example) = Some r'"
    and sh: "\<forall>g. r' < heap_next hp2 \<and> fst (decryptdata build_example g hp2) = Some r'
                \<longrightarrow> \<not> fst (encrypted build_example g hp2)"
    by force
  have r2: "r' = 2" using a' by (simp add: example_decryptdata_shared(1))
  have al: "r' < heap_next hp2" by (simp add: r2 hp2 set_key_sel example_keys)
  have g2: "fst (decryptdata build_example frag_iv2 hp2) = Some r'"
    unfolding r2 hp2
    by (subst example_decryptdata_shared(2))
       (simp add: set_key_sel(1) example_keys key_with_iv_def)
  have ns: "\<not> fst (encrypted build_example frag_iv2 hp2)" using sh al g2 by blast
  show ?thesis using e k ne e2 ns unfolding hs hs2 r3 by simp
qed

section \<open>Key cache\<close>













section \<open>Backtracking on dropped video frames\<close>









end
